theory Spec2Isabelle
  imports Main "HOL-Library.Word"
begin

section \<open>The round-robin client of spring-cloud-go\<close>

text \<open>
  A shallow embedding of \<^verbatim>\<open>spring_cloud_client.go\<close>. Go's \<^verbatim>\<open>uint32\<close> is a
  \<open>32 word\<close>, a pointer that may be nil is an \<open>option\<close>, a map is a partial
  function, a runtime panic is the left summand of the outcome, and the state a call
  changes is passed in and returned.
\<close>

subsection \<open>Endpoints and the rotation table\<close>

type_synonym uint32 = "32 word"

text \<open>
  Modelled from the spec: the type \<^verbatim>\<open>Endpoint\<close> is declared in another file of the
  repository; the client reads its fields \<^verbatim>\<open>Address\<close> (printed with \<^verbatim>\<open>%s\<close>) and
  \<^verbatim>\<open>Port\<close> (printed with \<^verbatim>\<open>%d\<close>): "a resolved network location, host/address and
  port".
\<close>

record Endpoint =
  Address :: string
  Port :: int

datatype panic = DivideByZero | NilDereference | NilMapAssignment

text \<open>
  \<^verbatim>\<open>rrIndices syncx.Map[string, *atomic.Uint32]\<close>: every service name owns one counter,
  so the table is kept as the map from a name to the current value of its counter.
\<close>

type_synonym rrtable = "string \<rightharpoonup> uint32"

text \<open>
  \<^verbatim>\<open>LoadOrStore\<close> of the concurrent map: the value already stored for the key and
  \<open>True\<close>, or else the given value, which is stored, and \<open>False\<close>.
\<close>

definition LoadOrStore :: "('k \<rightharpoonup> 'v) \<Rightarrow> 'k \<Rightarrow> 'v \<Rightarrow> ('v \<times> bool) \<times> ('k \<rightharpoonup> 'v)" where
  "LoadOrStore m k v =
     (case m k of
        Some x \<Rightarrow> ((x, True), m)
      | None \<Rightarrow> ((v, False), m(k \<mapsto> v)))"

text \<open>
  \<^verbatim>\<open>(*atomic.Uint32).Add(delta)\<close> on the counter of a key: adds with wrap-around, stores
  the sum and returns it.
\<close>

definition Add :: "rrtable \<Rightarrow> string \<Rightarrow> uint32 \<Rightarrow> uint32 \<times> rrtable" where
  "Add m k delta =
     (let new = (case m k of Some x \<Rightarrow> x | None \<Rightarrow> 0) + delta
      in (new, m(k \<mapsto> new)))"

text \<open>
  \<^verbatim>\<open>getNextEndpoint\<close>. The conversion \<^verbatim>\<open>uint32(len(endpoints))\<close> keeps the low 32 bits
  of the length, and \<^verbatim>\<open>%\<close> by zero is a runtime panic. The elements of the slice are
  pointers, so each may be nil.
\<close>

definition getNextEndpoint ::
  "string \<Rightarrow> Endpoint option list \<Rightarrow> rrtable \<Rightarrow>
     (panic + (Endpoint option \<times> bool)) \<times> rrtable" where
  "getNextEndpoint serviceName endpoints rr =
     (if length endpoints = 0 then (Inr (None, False), rr)
      else
        let newRRIndex = (0 :: uint32);
            (_, rr1) = LoadOrStore rr serviceName newRRIndex;
            (index, rr2) = Add rr1 serviceName 1;
            n = (of_nat (length endpoints) :: uint32)
        in if n = 0 then (Inl DivideByZero, rr2)
           else
             let idx = (index - 1) mod n
             in (Inr (endpoints ! unat idx, True), rr2))"

text \<open>
  Successive calls of \<^verbatim>\<open>getNextEndpoint\<close> for one service, the \<open>i\<close>-th call with the
  \<open>i\<close>-th list: the results in order and the table afterwards. A panic ends the run.
\<close>

fun selections ::
  "string \<Rightarrow> Endpoint option list list \<Rightarrow> rrtable \<Rightarrow>
     panic + ((Endpoint option \<times> bool) list \<times> rrtable)" where
  "selections serviceName [] rr = Inr ([], rr)"
| "selections serviceName (eps # rest) rr =
     (case getNextEndpoint serviceName eps rr of
        (Inl p, _) \<Rightarrow> Inl p
      | (Inr r, rr') \<Rightarrow>
          (case selections serviceName rest rr' of
             Inl p \<Rightarrow> Inl p
           | Inr (rs, rr'') \<Rightarrow> Inr (r # rs, rr'')))"

text \<open>The value of a service's counter; a counter not yet created counts as zero.\<close>

definition counter :: "rrtable \<Rightarrow> string \<Rightarrow> uint32" where
  "counter rr serviceName = (case rr serviceName of Some x \<Rightarrow> x | None \<Rightarrow> 0)"

subsection \<open>Header maps\<close>

text \<open>
  \<^verbatim>\<open>textproto.MIMEHeader\<close> is \<^verbatim>\<open>map[string][]string\<close>. The functions below are those of
  the Go library that the client calls, written after their documentation.
\<close>

type_synonym MIMEHeader = "string \<rightharpoonup> string list"

definition HeaderAccept :: string where
  "HeaderAccept = ''Accept''"

definition HeaderContentType :: string where
  "HeaderContentType = ''Content-Type''"

definition MediaJson :: string where
  "MediaJson = ''application/json''"

definition MediaXml :: string where
  "MediaXml = ''application/xml''"

definition lowerLetters :: string where
  "lowerLetters = ''abcdefghijklmnopqrstuvwxyz''"

definition upperLetters :: string where
  "upperLetters = ''ABCDEFGHIJKLMNOPQRSTUVWXYZ''"

definition isLower :: "char \<Rightarrow> bool" where
  "isLower c = (c \<in> set lowerLetters)"

definition isUpper :: "char \<Rightarrow> bool" where
  "isUpper c = (c \<in> set upperLetters)"

definition isDigit :: "char \<Rightarrow> bool" where
  "isDigit c = (c \<in> set ''0123456789'')"

text \<open>
  The bytes of an HTTP token: letters, digits and \<^verbatim>\<open>!#$%&'*+-.^_`|~\<close> (the quote is
  byte 39, the backquote byte 96).
\<close>

definition validHeaderFieldByte :: "char \<Rightarrow> bool" where
  "validHeaderFieldByte c =
     (isLower c \<or> isUpper c \<or> isDigit c \<or>
      c \<in> set [CHR ''!'', CHR ''#'', CHR ''$'', CHR ''%'', CHR ''&'', CHR 0x27, CHR ''*'',
                 CHR ''+'', CHR ''-'', CHR ''.'', CHR ''^'', CHR ''_'', CHR 0x60, CHR ''|'',
                 CHR ''~''])"

text \<open>The letter at the same place of the other alphabet: \<^verbatim>\<open>c - 32\<close> and \<^verbatim>\<open>c + 32\<close>.\<close>

fun translate :: "string \<Rightarrow> string \<Rightarrow> char \<Rightarrow> char" where
  "translate (a # as) (b # bs) c = (if c = a then b else translate as bs c)"
| "translate _ _ c = c"

text \<open>
  The loop of \<^verbatim>\<open>canonicalMIMEHeaderKey\<close>: the first letter and every letter after a
  hyphen in upper case, the others in lower case.
\<close>

fun canonicalize :: "bool \<Rightarrow> string \<Rightarrow> string" where
  "canonicalize upper [] = []"
| "canonicalize upper (c # cs) =
     (let c' = (if upper \<and> isLower c then translate lowerLetters upperLetters c
                else if \<not> upper \<and> isUpper c then translate upperLetters lowerLetters c
                else c)
      in c' # canonicalize (c' = CHR ''-'') cs)"

text \<open>A key with a byte that is not a token byte is returned as it is.\<close>

definition CanonicalMIMEHeaderKey :: "string \<Rightarrow> string" where
  "CanonicalMIMEHeaderKey s =
     (if list_all validHeaderFieldByte s then canonicalize True s else s)"

subsection \<open>Requests, responses and the state of a call\<close>

text \<open>
  A request as the transport gets it; its method and URL are what the library has made of
  the strings given to \<^verbatim>\<open>http.NewRequestWithContext\<close>.
\<close>

record HttpRequest =
  reqMethod :: string
  reqURL :: string
  reqBody :: string
  reqHeader :: MIMEHeader

text \<open>
  The body of a response is a stream: it yields the bytes \<open>content\<close> and then ends,
  with the end of the stream (\<open>failure = None\<close>) or with a read error.
\<close>

record ResponseBody =
  content :: string
  failure :: "string option"

record Response =
  StatusCode :: int
  Body :: ResponseBody

text \<open>
  What a call does to its surroundings, in order: a lookup in the directory, a selection
  in the rotation table, a method and a URL handed to \<^verbatim>\<open>http.NewRequestWithContext\<close>,
  a request handed to the transport, a read of \<open>n\<close> bytes of the response body (the
  flag says that the read left nothing of the stream to read), and the closing of the body.
  The two debug log events of \<^verbatim>\<open>Request\<close> are left out.
\<close>

datatype event =
    EvGetEndpoints string
  | EvSelect string
  | EvNewRequest string string
  | EvDo HttpRequest
  | EvBodyRead nat bool
  | EvBodyClose

text \<open>
  The state: the client's rotation table, the header maps that exist (a map value in Go
  is a reference; \<open>maps\<close> gives the contents of each, \<open>nextMap\<close> is the next fresh
  reference) and the events so far.
\<close>

record State =
  rrIndices :: rrtable
  maps :: "nat \<Rightarrow> MIMEHeader"
  nextMap :: nat
  trace :: "event list"

text \<open>
  Modelled from the spec: \<^verbatim>\<open>ErrNoAvailableEndpoint\<close> and \<^verbatim>\<open>NewHttpStatusError\<close> are
  declared in another file of the repository: "a dedicated no endpoint error distinct from
  directory failures" and "a status error carrying the numeric code and the raw body
  text". The errors are one type, as Go's \<^verbatim>\<open>error\<close> is: \<open>DirectoryError\<close> stands for
  the errors that a directory defines, \<open>Errorf\<close> for an error made by \<^verbatim>\<open>fmt.Errorf\<close>,
  kept as its message.
\<close>

datatype error =
    DirectoryError string
  | ErrNoAvailableEndpoint
  | Errorf string
  | HttpStatusError int string

definition NewHttpStatusError :: "int \<Rightarrow> string \<Rightarrow> error" where
  "NewHttpStatusError code text = HttpStatusError code text"

datatype TlsConfig = TlsConfig

text \<open>
  The fields of \<^verbatim>\<open>Client\<close> that do not change: the directory (\<^verbatim>\<open>GetEndpoints\<close>), the
  transport (\<^verbatim>\<open>httpClient.Do\<close>) and the TLS configuration, a pointer. The context of a
  call only reaches the transport, which is a parameter here.
\<close>

record Client =
  discovery :: "string \<Rightarrow> error + Endpoint option list"
  httpClient :: "HttpRequest \<Rightarrow> string + Response"
  tlsConfig :: "TlsConfig option"

text \<open>What a decoder did: how much of the body it read, its error, and the target afterwards.\<close>

record 't Decoded =
  bytesRead :: nat
  reachedEnd :: bool
  decodeErr :: "string option"
  target :: 't

text \<open>
  The library functions whose results the client only passes on: the order in which
  \<^verbatim>\<open>range\<close> visits the keys of a map, \<^verbatim>\<open>http.NewRequestWithContext\<close>, and the two
  codecs. \<^verbatim>\<open>http.NewRequestWithContext\<close> parses the method and the URL it is given: it
  returns an error, or a request with the method and the URL as the library has read
  them (with the body it was given and an empty header).
\<close>

record ('o, 't) Runtime =
  rangeKeys :: "MIMEHeader \<Rightarrow> string list"
  NewRequestWithContext :: "string \<Rightarrow> string \<Rightarrow> string + (string \<times> string)"
  jsonMarshal :: "'o \<Rightarrow> string + string"
  xmlMarshal :: "'o \<Rightarrow> string + string"
  jsonDecode :: "ResponseBody \<Rightarrow> 't \<Rightarrow> 't Decoded"
  xmlDecode :: "ResponseBody \<Rightarrow> 't \<Rightarrow> 't Decoded"

text \<open>\<^verbatim>\<open>make(textproto.MIMEHeader)\<close>: a fresh, empty map.\<close>

definition make_MIMEHeader :: "State \<Rightarrow> nat \<times> State" where
  "make_MIMEHeader s =
     (nextMap s, s\<lparr>maps := (maps s)(nextMap s := Map.empty), nextMap := nextMap s + 1\<rparr>)"

text \<open>\<^verbatim>\<open>h.Get(key)\<close>: the first value under the canonical key, or the empty string.\<close>

definition MIMEHeader_Get :: "State \<Rightarrow> nat option \<Rightarrow> string \<Rightarrow> string" where
  "MIMEHeader_Get s h key =
     (case h of
        None \<Rightarrow> []
      | Some a \<Rightarrow>
          (case maps s a (CanonicalMIMEHeaderKey key) of
             None \<Rightarrow> []
           | Some [] \<Rightarrow> []
           | Some (v # _) \<Rightarrow> v))"

text \<open>\<^verbatim>\<open>h.Set(key, value)\<close>: replaces the values under the canonical key; a nil map panics.\<close>

definition MIMEHeader_Set :: "nat option \<Rightarrow> string \<Rightarrow> string \<Rightarrow> State \<Rightarrow> (panic + unit) \<times> State" where
  "MIMEHeader_Set h key v s =
     (case h of
        None \<Rightarrow> (Inl NilMapAssignment, s)
      | Some a \<Rightarrow>
          (Inr (), s\<lparr>maps := (maps s)(a := (maps s a)(CanonicalMIMEHeaderKey key \<mapsto> [v]))\<rparr>))"

text \<open>\<^verbatim>\<open>req.Header.Add(key, value)\<close>: appends the value under the canonical key.\<close>

definition Header_Add :: "MIMEHeader \<Rightarrow> string \<Rightarrow> string \<Rightarrow> MIMEHeader" where
  "Header_Add h key v =
     h(CanonicalMIMEHeaderKey key \<mapsto>
         (case h (CanonicalMIMEHeaderKey key) of None \<Rightarrow> [] | Some vs \<Rightarrow> vs) @ [v])"

text \<open>Decimal digits, for the verb \<^verbatim>\<open>%d\<close>.\<close>

fun decimal :: "nat \<Rightarrow> string" where
  "decimal n =
     (if n < 10 then [''0123456789'' ! n]
      else decimal (n div 10) @ [''0123456789'' ! (n mod 10)])"

declare decimal.simps [simp del]

definition fmt_d :: "int \<Rightarrow> string" where
  "fmt_d i = (if i < 0 then CHR ''-'' # decimal (nat (- i)) else decimal (nat i))"

subsection \<open>The dispatcher\<close>

text \<open>The values stored under a key; a key that is absent has none.\<close>

definition valuesOf :: "MIMEHeader \<Rightarrow> string \<Rightarrow> string list" where
  "valuesOf h key = (case h key of None \<Rightarrow> [] | Some vs \<Rightarrow> vs)"

text \<open>The two nested \<^verbatim>\<open>range\<close> loops of \<^verbatim>\<open>Request\<close> that fill the header of the request.\<close>

fun addValues :: "string \<Rightarrow> string list \<Rightarrow> MIMEHeader \<Rightarrow> MIMEHeader" where
  "addValues key [] h = h"
| "addValues key (v # vs) h = addValues key vs (Header_Add h key v)"

fun copyHeaders :: "MIMEHeader \<Rightarrow> string list \<Rightarrow> MIMEHeader \<Rightarrow> MIMEHeader" where
  "copyHeaders headers [] h = h"
| "copyHeaders headers (key # keys) h =
     copyHeaders headers keys (addValues key (valuesOf headers key) h)"

definition emit :: "event \<Rightarrow> State \<Rightarrow> State" where
  "emit e s = s\<lparr>trace := trace s @ [e]\<rparr>"

definition Request ::
  "('o, 't) Runtime \<Rightarrow> Client \<Rightarrow> string \<Rightarrow> string \<Rightarrow> string \<Rightarrow> string \<Rightarrow> nat option \<Rightarrow> State \<Rightarrow>
     (panic + (error + Response)) \<times> State" where
  "Request rt c serviceName method path body headers s =
     (let s1 = emit (EvGetEndpoints serviceName) s in
      (case discovery c serviceName of
         Inl err \<Rightarrow> (Inr (Inl err), s1)
       | Inr endpoints \<Rightarrow>
           (case getNextEndpoint serviceName endpoints (rrIndices s1) of
              (r, rr') \<Rightarrow>
                (let s2 = emit (EvSelect serviceName) (s1\<lparr>rrIndices := rr'\<rparr>) in
                 (case r of
                    Inl p \<Rightarrow> (Inl p, s2)
                  | Inr (endpoint, ok) \<Rightarrow>
                      (if \<not> ok then (Inr (Inl ErrNoAvailableEndpoint), s2)
                       else
                         (case endpoint of
                            None \<Rightarrow> (Inl NilDereference, s2)
                          | Some ep \<Rightarrow>
                              (let prefix = (if tlsConfig c \<noteq> None then ''https://'' else ''http://'');
                                   url = prefix @ Address ep @ '':'' @ fmt_d (Port ep) @ path;
                                   s2' = emit (EvNewRequest method url) s2
                               in
                               (case NewRequestWithContext rt method url of
                                  Inl err \<Rightarrow>
                                    (Inr (Inl (Errorf (''failed to create HTTP request: '' @ err))), s2')
                                | Inr (reqMethod', reqURL') \<Rightarrow>
                                    (let hdr = (case headers of
                                                  None \<Rightarrow> Map.empty
                                                | Some a \<Rightarrow>
                                                    copyHeaders (maps s2 a) (rangeKeys rt (maps s2 a)) Map.empty);
                                         req = \<lparr>reqMethod = reqMethod', reqURL = reqURL', reqBody = body,
                                                reqHeader = hdr\<rparr>;
                                         s3 = emit (EvDo req) s2'
                                     in
                                     (case httpClient c req of
                                        Inl err \<Rightarrow>
                                          (Inr (Inl (Errorf (''failed to perform HTTP request: '' @ err))), s3)
                                      | Inr resp \<Rightarrow> (Inr (Inr resp), s3))))))))))))"

subsection \<open>The codec layer\<close>

definition MethodGet :: string where
  "MethodGet = ''GET''"

definition MethodPost :: string where
  "MethodPost = ''POST''"

definition MethodPut :: string where
  "MethodPut = ''PUT''"

definition MethodDelete :: string where
  "MethodDelete = ''DELETE''"

text \<open>
  \<^verbatim>\<open>JsonRequest\<close> and \<^verbatim>\<open>XmlRequest\<close>. The argument \<open>headers0\<close> is the caller's map (a
  reference, or nil), \<open>respObj\<close> the caller's target (nil, or its contents). The result
  holds the error returned and the target as the call leaves it. \<^verbatim>\<open>io.ReadAll\<close> reads
  the body to its end; the deferred \<^verbatim>\<open>Close\<close> runs last.
\<close>

definition JsonRequest ::
  "('o, 't) Runtime \<Rightarrow> Client \<Rightarrow> string \<Rightarrow> string \<Rightarrow> string \<Rightarrow> string \<Rightarrow> nat option \<Rightarrow>
     't option \<Rightarrow> State \<Rightarrow> (panic + (error option \<times> 't option)) \<times> State" where
  "JsonRequest rt c serviceName method path body headers0 respObj s0 =
     (case (case headers0 of
              None \<Rightarrow> (case make_MIMEHeader s0 of (a, s) \<Rightarrow> (Some a, s))
            | Some a \<Rightarrow> (headers0, s0)) of
        (headers, s1) \<Rightarrow>
          (case (if MIMEHeader_Get s1 headers HeaderAccept = []
                 then MIMEHeader_Set headers HeaderAccept MediaJson s1 else (Inr (), s1)) of
             (Inl p, s2) \<Rightarrow> (Inl p, s2)
           | (Inr _, s2) \<Rightarrow>
               (case (if MIMEHeader_Get s2 headers HeaderContentType = []
                      then MIMEHeader_Set headers HeaderContentType MediaJson s2 else (Inr (), s2)) of
                  (Inl p, s3) \<Rightarrow> (Inl p, s3)
                | (Inr _, s3) \<Rightarrow>
                    (case Request rt c serviceName method path body headers s3 of
                       (Inl p, s4) \<Rightarrow> (Inl p, s4)
                     | (Inr (Inl err), s4) \<Rightarrow> (Inr (Some err, respObj), s4)
                     | (Inr (Inr resp), s4) \<Rightarrow>
                         (case (if 200 \<le> StatusCode resp \<and> StatusCode resp < 300 then
                                  (case respObj of
                                     None \<Rightarrow> ((None, None), s4)
                                   | Some t \<Rightarrow>
                                       (let d = jsonDecode rt (Body resp) t;
                                            s5 = emit (EvBodyRead (bytesRead d) (reachedEnd d)) s4
                                        in
                                        (case decodeErr d of
                                           Some err \<Rightarrow>
                                             ((Some (Errorf (''failed to decode JSON response: '' @ err)),
                                               Some (target d)), s5)
                                         | None \<Rightarrow> ((None, Some (target d)), s5))))
                                else
                                  (let s5 = emit (EvBodyRead (length (content (Body resp))) True) s4 in
                                   (case failure (Body resp) of
                                      Some readErr \<Rightarrow>
                                        ((Some (NewHttpStatusError (StatusCode resp)
                                                  (''failed to read response body: '' @ readErr)),
                                          respObj), s5)
                                    | None \<Rightarrow>
                                        ((Some (NewHttpStatusError (StatusCode resp) (content (Body resp))),
                                          respObj), s5)))) of
                            (result, s6) \<Rightarrow> (Inr result, emit EvBodyClose s6))))))"

definition JsonGet ::
  "('o, 't) Runtime \<Rightarrow> Client \<Rightarrow> string \<Rightarrow> string \<Rightarrow> nat option \<Rightarrow> 't option \<Rightarrow> State \<Rightarrow>
     (panic + (error option \<times> 't option)) \<times> State" where
  "JsonGet rt c serviceName path headers respObj s =
     JsonRequest rt c serviceName MethodGet path [] headers respObj s"

definition JsonPost ::
  "('o, 't) Runtime \<Rightarrow> Client \<Rightarrow> string \<Rightarrow> string \<Rightarrow> 'o \<Rightarrow> nat option \<Rightarrow> 't option \<Rightarrow> State \<Rightarrow>
     (panic + (error option \<times> 't option)) \<times> State" where
  "JsonPost rt c serviceName path reqObj headers respObj s =
     (case jsonMarshal rt reqObj of
        Inl err \<Rightarrow>
          (Inr (Some (Errorf (''failed to marshal request object: '' @ err)), respObj), s)
      | Inr body \<Rightarrow> JsonRequest rt c serviceName MethodPost path body headers respObj s)"

definition JsonPut ::
  "('o, 't) Runtime \<Rightarrow> Client \<Rightarrow> string \<Rightarrow> string \<Rightarrow> 'o \<Rightarrow> nat option \<Rightarrow> 't option \<Rightarrow> State \<Rightarrow>
     (panic + (error option \<times> 't option)) \<times> State" where
  "JsonPut rt c serviceName path reqObj headers respObj s =
     (case jsonMarshal rt reqObj of
        Inl err \<Rightarrow>
          (Inr (Some (Errorf (''failed to marshal request object: '' @ err)), respObj), s)
      | Inr body \<Rightarrow> JsonRequest rt c serviceName MethodPut path body headers respObj s)"

definition JsonDelete ::
  "('o, 't) Runtime \<Rightarrow> Client \<Rightarrow> string \<Rightarrow> string \<Rightarrow> nat option \<Rightarrow> State \<Rightarrow>
     (panic + (error option \<times> 't option)) \<times> State" where
  "JsonDelete rt c serviceName path headers s =
     JsonRequest rt c serviceName MethodDelete path [] headers None s"

definition XmlRequest ::
  "('o, 't) Runtime \<Rightarrow> Client \<Rightarrow> string \<Rightarrow> string \<Rightarrow> string \<Rightarrow> string \<Rightarrow> nat option \<Rightarrow>
     't option \<Rightarrow> State \<Rightarrow> (panic + (error option \<times> 't option)) \<times> State" where
  "XmlRequest rt c serviceName method path body headers0 respObj s0 =
     (case (case headers0 of
              None \<Rightarrow> (case make_MIMEHeader s0 of (a, s) \<Rightarrow> (Some a, s))
            | Some a \<Rightarrow> (headers0, s0)) of
        (headers, s1) \<Rightarrow>
          (case (if MIMEHeader_Get s1 headers HeaderAccept = []
                 then MIMEHeader_Set headers HeaderAccept MediaXml s1 else (Inr (), s1)) of
             (Inl p, s2) \<Rightarrow> (Inl p, s2)
           | (Inr _, s2) \<Rightarrow>
               (case (if MIMEHeader_Get s2 headers HeaderContentType = []
                      then MIMEHeader_Set headers HeaderContentType MediaXml s2 else (Inr (), s2)) of
                  (Inl p, s3) \<Rightarrow> (Inl p, s3)
                | (Inr _, s3) \<Rightarrow>
                    (case Request rt c serviceName method path body headers s3 of
                       (Inl p, s4) \<Rightarrow> (Inl p, s4)
                     | (Inr (Inl err), s4) \<Rightarrow> (Inr (Some err, respObj), s4)
                     | (Inr (Inr resp), s4) \<Rightarrow>
                         (case (if 200 \<le> StatusCode resp \<and> StatusCode resp < 300 then
                                  (case respObj of
                                     None \<Rightarrow> ((None, None), s4)
                                   | Some t \<Rightarrow>
                                       (let d = xmlDecode rt (Body resp) t;
                                            s5 = emit (EvBodyRead (bytesRead d) (reachedEnd d)) s4
                                        in
                                        (case decodeErr d of
                                           Some err \<Rightarrow>
                                             ((Some (Errorf (''failed to decode XML response: '' @ err)),
                                               Some (target d)), s5)
                                         | None \<Rightarrow> ((None, Some (target d)), s5))))
                                else
                                  (let s5 = emit (EvBodyRead (length (content (Body resp))) True) s4 in
                                   (case failure (Body resp) of
                                      Some readErr \<Rightarrow>
                                        ((Some (NewHttpStatusError (StatusCode resp)
                                                  (''failed to read response body: '' @ readErr)),
                                          respObj), s5)
                                    | None \<Rightarrow>
                                        ((Some (NewHttpStatusError (StatusCode resp) (content (Body resp))),
                                          respObj), s5)))) of
                            (result, s6) \<Rightarrow> (Inr result, emit EvBodyClose s6))))))"

definition XmlGet ::
  "('o, 't) Runtime \<Rightarrow> Client \<Rightarrow> string \<Rightarrow> string \<Rightarrow> nat option \<Rightarrow> 't option \<Rightarrow> State \<Rightarrow>
     (panic + (error option \<times> 't option)) \<times> State" where
  "XmlGet rt c serviceName path headers respObj s =
     XmlRequest rt c serviceName MethodGet path [] headers respObj s"

definition XmlPost ::
  "('o, 't) Runtime \<Rightarrow> Client \<Rightarrow> string \<Rightarrow> string \<Rightarrow> 'o \<Rightarrow> nat option \<Rightarrow> 't option \<Rightarrow> State \<Rightarrow>
     (panic + (error option \<times> 't option)) \<times> State" where
  "XmlPost rt c serviceName path reqObj headers respObj s =
     (case xmlMarshal rt reqObj of
        Inl err \<Rightarrow>
          (Inr (Some (Errorf (''failed to marshal request object: '' @ err)), respObj), s)
      | Inr body \<Rightarrow> XmlRequest rt c serviceName MethodPost path body headers respObj s)"

definition XmlPut ::
  "('o, 't) Runtime \<Rightarrow> Client \<Rightarrow> string \<Rightarrow> string \<Rightarrow> 'o \<Rightarrow> nat option \<Rightarrow> 't option \<Rightarrow> State \<Rightarrow>
     (panic + (error option \<times> 't option)) \<times> State" where
  "XmlPut rt c serviceName path reqObj headers respObj s =
     (case xmlMarshal rt reqObj of
        Inl err \<Rightarrow>
          (Inr (Some (Errorf (''failed to marshal request object: '' @ err)), respObj), s)
      | Inr body \<Rightarrow> XmlRequest rt c serviceName MethodPut path body headers respObj s)"

definition XmlDelete ::
  "('o, 't) Runtime \<Rightarrow> Client \<Rightarrow> string \<Rightarrow> string \<Rightarrow> nat option \<Rightarrow> State \<Rightarrow>
     (panic + (error option \<times> 't option)) \<times> State" where
  "XmlDelete rt c serviceName path headers s =
     XmlRequest rt c serviceName MethodDelete path [] headers None s"

subsection \<open>Notions used to state the properties\<close>

text \<open>
  The \<open>k\<close>-th selection (counted from 1) of a run of successive selections for one
  service.
\<close>

definition selection ::
  "string \<Rightarrow> Endpoint option list list \<Rightarrow> rrtable \<Rightarrow> nat \<Rightarrow> panic + (Endpoint option \<times> bool)" where
  "selection serviceName epss rr k =
     (case selections serviceName (take k epss) rr of
        Inl p \<Rightarrow> Inl p
      | Inr (rs, _) \<Rightarrow> Inr (rs ! (k - 1)))"

text \<open>
  The header map and the state with which \<^verbatim>\<open>JsonRequest\<close> and \<^verbatim>\<open>XmlRequest\<close> enter
  \<^verbatim>\<open>Request\<close>: the first three statements of either, for the media type of the codec.
\<close>

definition withDefaults :: "string \<Rightarrow> nat option \<Rightarrow> State \<Rightarrow> nat option \<times> State" where
  "withDefaults media headers0 s0 =
     (case (case headers0 of
              None \<Rightarrow> (case make_MIMEHeader s0 of (a, s) \<Rightarrow> (Some a, s))
            | Some a \<Rightarrow> (headers0, s0)) of
        (headers, s1) \<Rightarrow>
          (let s2 = (if MIMEHeader_Get s1 headers HeaderAccept = []
                     then snd (MIMEHeader_Set headers HeaderAccept media s1) else s1);
               s3 = (if MIMEHeader_Get s2 headers HeaderContentType = []
                     then snd (MIMEHeader_Set headers HeaderContentType media s2) else s2)
           in (headers, s3)))"

text \<open>The events of a call: those of the state after it that the state before it lacks.\<close>

definition eventsSince :: "State \<Rightarrow> State \<Rightarrow> event list" where
  "eventsSince s s' = drop (length (trace s)) (trace s')"

fun urlsBuilt :: "event list \<Rightarrow> string list" where
  "urlsBuilt [] = []"
| "urlsBuilt (EvNewRequest m url # evs) = url # urlsBuilt evs"
| "urlsBuilt (_ # evs) = urlsBuilt evs"

fun requestsOf :: "event list \<Rightarrow> HttpRequest list" where
  "requestsOf [] = []"
| "requestsOf (EvDo req # evs) = req # requestsOf evs"
| "requestsOf (_ # evs) = requestsOf evs"

text \<open>A body is drained when a read of it has reached the end of the stream.\<close>

fun drained :: "event list \<Rightarrow> bool" where
  "drained [] = False"
| "drained (EvBodyRead n fin # evs) = (fin \<or> drained evs)"
| "drained (_ # evs) = drained evs"

fun bodyReads :: "event list \<Rightarrow> (nat \<times> bool) list" where
  "bodyReads [] = []"
| "bodyReads (EvBodyRead n fin # evs) = (n, fin) # bodyReads evs"
| "bodyReads (_ # evs) = bodyReads evs"

text \<open>
  What the defaults make of a caller's map: a header whose first value is missing or
  empty gets the media type as its only value.
\<close>

definition firstValue :: "MIMEHeader \<Rightarrow> string \<Rightarrow> string" where
  "firstValue h key = (case h key of None \<Rightarrow> [] | Some [] \<Rightarrow> [] | Some (v # _) \<Rightarrow> v)"

definition defaulted :: "string \<Rightarrow> MIMEHeader \<Rightarrow> MIMEHeader" where
  "defaulted media h =
     (\<lambda>key. if (key = HeaderAccept \<or> key = HeaderContentType) \<and> firstValue h key = []
            then Some [media] else h key)"

text \<open>
  The order in which \<^verbatim>\<open>range\<close> visits a map names every key once, and a header has a sole
  spelling in a map when no other key of the map has it as canonical form.
\<close>

definition enumerates :: "('o, 't) Runtime \<Rightarrow> MIMEHeader \<Rightarrow> bool" where
  "enumerates rt h = (distinct (rangeKeys rt h) \<and> set (rangeKeys rt h) = dom h)"

definition soleSpelling :: "string list \<Rightarrow> string \<Rightarrow> bool" where
  "soleSpelling keys K = list_all (\<lambda>k. CanonicalMIMEHeaderKey k = K \<longrightarrow> k = K) keys"

subsection \<open>A concrete client for the examples\<close>

text \<open>
  A directory that knows the service \<open>svc\<close> with two endpoints and the service \<open>idle\<close>
  with none, a transport that answers every request with the given response, a library
  that takes every method and URL as they are, a JSON codec that fails on the object
  \<open>nan\<close> and an XML codec that fails on the object \<open>map\<close>, and a state with the
  caller's header map at reference 0.
\<close>

definition sampleClient :: "TlsConfig option \<Rightarrow> Response \<Rightarrow> Client" where
  "sampleClient tls resp =
     \<lparr>discovery = (\<lambda>name.
        if name = ''svc'' then
          Inr [Some \<lparr>Address = ''10.0.0.1'', Port = 8080\<rparr>, Some \<lparr>Address = ''10.0.0.2'', Port = 443\<rparr>]
        else if name = ''idle'' then Inr []
        else Inl (DirectoryError ''unknown service'')),
      httpClient = (\<lambda>_. Inr resp),
      tlsConfig = tls\<rparr>"

definition sampleDecode :: "ResponseBody \<Rightarrow> string \<Rightarrow> string Decoded" where
  "sampleDecode body t =
     \<lparr>bytesRead = length (content body), reachedEnd = True, decodeErr = None,
      target = content body\<rparr>"

definition sampleRuntime :: "(string, string) Runtime" where
  "sampleRuntime =
     \<lparr>rangeKeys = (\<lambda>h. filter (\<lambda>k. h k \<noteq> None) [''Accept'', ''Content-Type'', ''X-Trace'']),
      NewRequestWithContext = (\<lambda>method url. Inr (method, url)),
      jsonMarshal = (\<lambda>obj. if obj = ''nan'' then Inl ''json: unsupported value'' else Inr obj),
      xmlMarshal = (\<lambda>obj. if obj = ''map'' then Inl ''xml: unsupported type'' else Inr obj),
      jsonDecode = sampleDecode,
      xmlDecode = sampleDecode\<rparr>"

definition sampleState :: "MIMEHeader \<Rightarrow> State" where
  "sampleState h =
     \<lparr>rrIndices = Map.empty, maps = (\<lambda>a. if a = 0 then h else Map.empty), nextMap = 1, trace = []\<rparr>"

subsection \<open>The target URL and the shape shared by the two codecs\<close>

text \<open>
  The target URL in the words of the specification: the scheme is \<open>https\<close> exactly when
  a TLS configuration is present, host and port are those of the endpoint, and the path
  follows as it is.
\<close>

definition specURL :: "Client \<Rightarrow> Endpoint \<Rightarrow> string \<Rightarrow> string" where
  "specURL c ep path =
     (if tlsConfig c = None then ''http'' else ''https'') @ ''://'' @
     Address ep @ '':'' @ fmt_d (Port ep) @ path"

text \<open>
  The statements of \<^verbatim>\<open>JsonRequest\<close> and \<^verbatim>\<open>XmlRequest\<close> after the call of \<^verbatim>\<open>Request\<close>
  has returned a response: the status decides between decoding and the status error.
\<close>

definition classify ::
  "(ResponseBody \<Rightarrow> 't \<Rightarrow> 't Decoded) \<Rightarrow> string \<Rightarrow> Response \<Rightarrow> 't option \<Rightarrow> State \<Rightarrow>
     (error option \<times> 't option) \<times> State" where
  "classify dec label resp respObj s4 =
     (if 200 \<le> StatusCode resp \<and> StatusCode resp < 300 then
        (case respObj of
           None \<Rightarrow> ((None, None), s4)
         | Some t \<Rightarrow>
             (let d = dec (Body resp) t;
                  s5 = emit (EvBodyRead (bytesRead d) (reachedEnd d)) s4
              in
              (case decodeErr d of
                 Some err \<Rightarrow>
                   ((Some (Errorf (''failed to decode '' @ label @ '' response: '' @ err)),
                     Some (target d)), s5)
               | None \<Rightarrow> ((None, Some (target d)), s5))))
      else
        (let s5 = emit (EvBodyRead (length (content (Body resp))) True) s4 in
         (case failure (Body resp) of
            Some readErr \<Rightarrow>
              ((Some (NewHttpStatusError (StatusCode resp)
                        (''failed to read response body: '' @ readErr)),
                respObj), s5)
          | None \<Rightarrow>
              ((Some (NewHttpStatusError (StatusCode resp) (content (Body resp))),
                respObj), s5))))"

text \<open>
  The two functions are one text up to the media type, the decoder and its name in the
  message; this is that text, in three steps.
\<close>

definition codecRequest ::
  "string \<Rightarrow> (ResponseBody \<Rightarrow> 't \<Rightarrow> 't Decoded) \<Rightarrow> string \<Rightarrow>
   ('o, 't) Runtime \<Rightarrow> Client \<Rightarrow> string \<Rightarrow> string \<Rightarrow> string \<Rightarrow> string \<Rightarrow> nat option \<Rightarrow>
     't option \<Rightarrow> State \<Rightarrow> (panic + (error option \<times> 't option)) \<times> State" where
  "codecRequest media dec label rt c serviceName method path body headers0 respObj s0 =
     (case withDefaults media headers0 s0 of
        (headers, s3) \<Rightarrow>
          (case Request rt c serviceName method path body headers s3 of
             (Inl p, s4) \<Rightarrow> (Inl p, s4)
           | (Inr (Inl err), s4) \<Rightarrow> (Inr (Some err, respObj), s4)
           | (Inr (Inr resp), s4) \<Rightarrow>
               (case classify dec label resp respObj s4 of
                  (result, s6) \<Rightarrow> (Inr result, emit EvBodyClose s6))))"

text \<open>The call of \<^verbatim>\<open>Request\<close> inside \<^verbatim>\<open>JsonRequest\<close> and \<^verbatim>\<open>XmlRequest\<close>.\<close>

definition innerRequest ::
  "string \<Rightarrow> ('o, 't) Runtime \<Rightarrow> Client \<Rightarrow> string \<Rightarrow> string \<Rightarrow> string \<Rightarrow> string \<Rightarrow> nat option \<Rightarrow>
     State \<Rightarrow> (panic + (error + Response)) \<times> State" where
  "innerRequest media rt c serviceName method path body headers0 s0 =
     Request rt c serviceName method path body
       (fst (withDefaults media headers0 s0)) (snd (withDefaults media headers0 s0))"

text \<open>The reads of the response body that a status and a target lead to.\<close>

definition readsFor ::
  "(ResponseBody \<Rightarrow> 't \<Rightarrow> 't Decoded) \<Rightarrow> Response \<Rightarrow> 't option \<Rightarrow> (nat \<times> bool) list" where
  "readsFor dec resp respObj =
     (if 200 \<le> StatusCode resp \<and> StatusCode resp < 300 then
        (case respObj of
           None \<Rightarrow> []
         | Some t \<Rightarrow> [(bytesRead (dec (Body resp) t), reachedEnd (dec (Body resp) t))])
      else [(length (content (Body resp)), True)])"

subsection \<open>Concurrent selections\<close>

text \<open>
  Calls of \<^verbatim>\<open>getNextEndpoint\<close> for one service that run at the same time, each with a list
  that is not empty. A call touches the table twice, in \<^verbatim>\<open>LoadOrStore\<close> and in \<^verbatim>\<open>Add\<close>,
  and each of the two is one indivisible step; the steps of different calls may come in
  any order. A call has not started, holds the counter it got from \<^verbatim>\<open>LoadOrStore\<close>, or
  has the value that \<^verbatim>\<open>Add\<close> returned.
\<close>

datatype callState = NotStarted | HoldsCounter | Returned uint32

definition stepCall :: "string \<Rightarrow> nat \<Rightarrow> rrtable \<times> callState list \<Rightarrow> rrtable \<times> callState list" where
  "stepCall serviceName i cfg =
     (case cfg of
        (rr, calls) \<Rightarrow>
          (if i < length calls then
             (case calls ! i of
                NotStarted \<Rightarrow> (snd (LoadOrStore rr serviceName 0), calls[i := HoldsCounter])
              | HoldsCounter \<Rightarrow>
                  (case Add rr serviceName 1 of
                     (index, rr') \<Rightarrow> (rr', calls[i := Returned index]))
              | Returned v \<Rightarrow> (rr, calls))
           else (rr, calls)))"

text \<open>A schedule names, step by step, the call that moves next.\<close>

fun interleave :: "string \<Rightarrow> nat list \<Rightarrow> rrtable \<times> callState list \<Rightarrow> rrtable \<times> callState list" where
  "interleave serviceName [] cfg = cfg"
| "interleave serviceName (i # schedule) cfg =
     interleave serviceName schedule (stepCall serviceName i cfg)"

fun returned :: "callState list \<Rightarrow> uint32 list" where
  "returned [] = []"
| "returned (Returned v # calls) = v # returned calls"
| "returned (_ # calls) = returned calls"

text \<open>
  No update is lost: the counter is its first value plus the number of calls that have
  returned, and these calls hold the values that follow the first one.
\<close>

definition noLostUpdate :: "string \<Rightarrow> uint32 \<Rightarrow> rrtable \<times> callState list \<Rightarrow> bool" where
  "noLostUpdate serviceName c0 cfg =
     (counter (fst cfg) serviceName = c0 + of_nat (length (returned (snd cfg)))
      \<and> set (returned (snd cfg)) = (\<lambda>j. c0 + of_nat (Suc j)) ` {0..<length (returned (snd cfg))})"


section \<open>Properties\<close>

subsection \<open>The rotation table\<close>

lemma getNextEndpoint_empty: "getNextEndpoint s [] rr = (Inr (None, False), rr)"
  by (simp add: getNextEndpoint_def)

lemma getNextEndpoint_step:
  "eps \<noteq> [] \<Longrightarrow>
   getNextEndpoint s eps rr =
     (if (of_nat (length eps) :: uint32) = 0 then Inl DivideByZero
      else Inr (eps ! unat (counter rr s mod of_nat (length eps)), True),
      rr(s \<mapsto> counter rr s + 1))"
  by (cases "rr s") (simp_all add: getNextEndpoint_def LoadOrStore_def Add_def counter_def Let_def)

lemma counter_upd: "counter (rr(s \<mapsto> v)) t = (if t = s then v else counter rr t)"
  by (simp add: counter_def)

lemma uint32_of_length:
  "0 < N \<Longrightarrow> N < 2 ^ 32 \<Longrightarrow> (of_nat N :: uint32) \<noteq> 0 \<and> unat (of_nat N :: uint32) = N"
  by (simp add: unat_of_nat word_of_nat_eq_0_iff dvd_def)
    (metis less_irrefl mod_less mod_mult_self1_is_0 mult.commute)

text \<open>
  A run of selections over lists that are not empty and whose lengths are not multiples
  of \<open>2 ^ 32\<close> does not panic; the \<open>i\<close>-th result is read off the counter, which every
  call advances by one, and no other service's counter changes.
\<close>

lemma selections_run:
  "list_all (\<lambda>eps. eps \<noteq> [] \<and> (of_nat (length eps) :: uint32) \<noteq> 0) epss \<Longrightarrow>
   \<exists>rs rr'. selections s epss rr = Inr (rs, rr') \<and> length rs = length epss
     \<and> (\<forall>i<length epss. rs ! i =
           ((epss ! i) ! unat ((counter rr s + of_nat i) mod of_nat (length (epss ! i))), True))
     \<and> counter rr' s = counter rr s + of_nat (length epss)
     \<and> (\<forall>t. t \<noteq> s \<longrightarrow> rr' t = rr t)"
proof (induction epss arbitrary: rr)
  case Nil
  then show ?case by simp
next
  case (Cons eps rest)
  from Cons.prems have ne: "eps \<noteq> []" and nz: "(of_nat (length eps) :: uint32) \<noteq> 0"
    and rest: "list_all (\<lambda>eps. eps \<noteq> [] \<and> (of_nat (length eps) :: uint32) \<noteq> 0) rest"
    by simp_all
  let ?rr1 = "rr(s \<mapsto> counter rr s + 1)"
  from Cons.IH [OF rest, of ?rr1] obtain rs rr' where
    run: "selections s rest ?rr1 = Inr (rs, rr')" and len: "length rs = length rest"
    and nth: "\<forall>i<length rest. rs ! i =
           ((rest ! i) ! unat ((counter ?rr1 s + of_nat i) mod of_nat (length (rest ! i))), True)"
    and cnt: "counter rr' s = counter ?rr1 s + of_nat (length rest)"
    and frame: "\<forall>t. t \<noteq> s \<longrightarrow> rr' t = ?rr1 t"
    by blast
  let ?r = "(eps ! unat (counter rr s mod of_nat (length eps)), True)"
  have step: "selections s (eps # rest) rr = Inr (?r # rs, rr')"
    using ne nz run by (simp add: getNextEndpoint_step)
  have "\<forall>i<length (eps # rest). (?r # rs) ! i =
           (((eps # rest) ! i) !
              unat ((counter rr s + of_nat i) mod of_nat (length ((eps # rest) ! i))), True)"
  proof (intro allI impI)
    fix i assume i: "i < length (eps # rest)"
    show "(?r # rs) ! i =
           (((eps # rest) ! i) !
              unat ((counter rr s + of_nat i) mod of_nat (length ((eps # rest) ! i))), True)"
    proof (cases i)
      case 0
      then show ?thesis by simp
    next
      case (Suc j)
      with i have "j < length rest" by simp
      with nth have "rs ! j =
          ((rest ! j) ! unat ((counter ?rr1 s + of_nat j) mod of_nat (length (rest ! j))), True)"
        by blast
      then show ?thesis using Suc by (simp add: counter_upd ac_simps)
    qed
  qed
  moreover have "counter rr' s = counter rr s + of_nat (length (eps # rest))"
    using cnt by (simp add: counter_upd ac_simps)
  moreover have "\<forall>t. t \<noteq> s \<longrightarrow> rr' t = rr t"
    using frame by simp
  ultimately show ?case using step len by simp
qed

lemma selection_index:
  assumes fresh: "rr s = None"
    and sizes: "list_all (\<lambda>eps. length eps = N) epss"
    and N: "0 < N" "N < 2 ^ 32"
    and k: "1 \<le> k" "k \<le> length epss"
  shows "selection s epss rr k = Inr (epss ! (k - 1) ! (((k - 1) mod 2 ^ 32) mod N), True)"
proof -
  have "eps \<noteq> [] \<and> (of_nat (length eps) :: uint32) \<noteq> 0" if "eps \<in> set (take k epss)" for eps
  proof -
    from that have "eps \<in> set epss" by (rule in_set_takeD)
    with sizes have "length eps = N" by (simp add: list_all_iff)
    with N uint32_of_length [OF N] show ?thesis by auto
  qed
  then have "list_all (\<lambda>eps. eps \<noteq> [] \<and> (of_nat (length eps) :: uint32) \<noteq> 0) (take k epss)"
    by (simp add: list_all_iff)
  from selections_run [OF this, of s rr] obtain rs rr' where
    run: "selections s (take k epss) rr = Inr (rs, rr')"
    and nth: "\<forall>i<length (take k epss). rs ! i =
           ((take k epss ! i) !
              unat ((counter rr s + of_nat i) mod of_nat (length (take k epss ! i))), True)"
    by blast
  have c0: "counter rr s = 0" using fresh by (simp add: counter_def)
  have lt: "k - 1 < length (take k epss)" using k by simp
  have el: "take k epss ! (k - 1) = epss ! (k - 1)" using k by simp
  have "epss ! (k - 1) \<in> set epss" using k by simp
  with sizes have lenN: "length (epss ! (k - 1)) = N" by (simp add: list_all_iff)
  have "rs ! (k - 1) = (epss ! (k - 1) ! unat ((of_nat (k - 1) :: uint32) mod of_nat N), True)"
    using nth lt el lenN c0 by (metis add_0)
  moreover have "unat ((of_nat (k - 1) :: uint32) mod of_nat N) = ((k - 1) mod 2 ^ 32) mod N"
    using uint32_of_length [OF N] by (simp add: unat_mod_distrib unat_of_nat)
  ultimately show ?thesis using run by (simp add: selection_def)
qed

text \<open>
  C1 (amended). For a service name not yet in the table and successive selections
  against lists of one length \<open>N\<close> with \<open>0 < N < 2 ^ 32\<close>, the \<open>k\<close>-th selection
  returns the endpoint at index \<open>((k - 1) mod 2 ^ 32) mod N\<close> of its list; for
  \<open>k \<le> 2 ^ 32\<close> this is index \<open>(k - 1) mod N\<close>, and index 0 for the first call.
\<close>

theorem kth_selection_round_robin:
  assumes "rr serviceName = None"
    and "list_all (\<lambda>endpoints. length endpoints = N) epss"
    and "0 < N" and "N < 2 ^ 32"
    and "1 \<le> k" and "k \<le> length epss"
  shows "selection serviceName epss rr k =
           Inr (epss ! (k - 1) ! (((k - 1) mod 2 ^ 32) mod N), True)
         \<and> (k \<le> 2 ^ 32 \<longrightarrow>
              selection serviceName epss rr k = Inr (epss ! (k - 1) ! ((k - 1) mod N), True))"
proof -
  have a: "selection serviceName epss rr k =
           Inr (epss ! (k - 1) ! (((k - 1) mod 2 ^ 32) mod N), True)"
    using assms by (rule selection_index)
  have "k \<le> 2 ^ 32 \<Longrightarrow> (k - 1) mod 2 ^ 32 = k - 1"
    using \<open>1 \<le> k\<close> by simp
  with a show ?thesis by simp
qed

text \<open>The third of three selections over lists of two endpoints takes index 0 again.\<close>

theorem kth_selection_round_robin_witness:
  "(Map.empty :: rrtable) ''svc'' = None
   \<and> list_all (\<lambda>endpoints. length endpoints = 2)
        [[Some \<lparr>Address = ''a'', Port = 1\<rparr>, Some \<lparr>Address = ''b'', Port = 2\<rparr>],
         [Some \<lparr>Address = ''a'', Port = 1\<rparr>, Some \<lparr>Address = ''b'', Port = 2\<rparr>],
         [Some \<lparr>Address = ''c'', Port = 3\<rparr>, Some \<lparr>Address = ''d'', Port = 4\<rparr>]]
   \<and> (0::nat) < 2 \<and> (2::nat) < 2 ^ 32 \<and> (1::nat) \<le> 3 \<and> (3::nat) \<le> 2 ^ 32
   \<and> selection ''svc''
        [[Some \<lparr>Address = ''a'', Port = 1\<rparr>, Some \<lparr>Address = ''b'', Port = 2\<rparr>],
         [Some \<lparr>Address = ''a'', Port = 1\<rparr>, Some \<lparr>Address = ''b'', Port = 2\<rparr>],
         [Some \<lparr>Address = ''c'', Port = 3\<rparr>, Some \<lparr>Address = ''d'', Port = 4\<rparr>]]
        Map.empty 3 = Inr (Some \<lparr>Address = ''c'', Port = 3\<rparr>, True)"
  using kth_selection_round_robin [of Map.empty "''svc''" 2
        "[[Some \<lparr>Address = ''a'', Port = 1\<rparr>, Some \<lparr>Address = ''b'', Port = 2\<rparr>],
         [Some \<lparr>Address = ''a'', Port = 1\<rparr>, Some \<lparr>Address = ''b'', Port = 2\<rparr>],
         [Some \<lparr>Address = ''c'', Port = 3\<rparr>, Some \<lparr>Address = ''d'', Port = 4\<rparr>]]" 3]
  by simp

text \<open>
  C1 as stated fails once the counter has wrapped: with three endpoints, selection number
  \<open>2 ^ 32 + 1\<close> of a new service finds the counter at 1 again and returns index 0, where
  \<open>(k - 1) mod N = 2 ^ 32 mod 3 = 1\<close>.
\<close>

theorem kth_selection_wraps_counterexample:
  "selection ''svc''
     (replicate 4294967297
        [Some \<lparr>Address = ''a'', Port = 1\<rparr>, Some \<lparr>Address = ''b'', Port = 2\<rparr>,
         Some \<lparr>Address = ''c'', Port = 3\<rparr>])
     Map.empty 4294967297
   \<noteq> Inr ([Some \<lparr>Address = ''a'', Port = 1\<rparr>, Some \<lparr>Address = ''b'', Port = 2\<rparr>,
            Some \<lparr>Address = ''c'', Port = 3\<rparr>] ! ((4294967297 - 1) mod 3), True)"
proof -
  let ?eps = "[Some \<lparr>Address = ''a'', Port = 1\<rparr>, Some \<lparr>Address = ''b'', Port = 2\<rparr>,
         Some \<lparr>Address = ''c'', Port = 3\<rparr>]"
  have "selection ''svc'' (replicate 4294967297 ?eps) Map.empty 4294967297 =
      Inr (replicate 4294967297 ?eps ! (4294967297 - 1) !
             (((4294967297 - 1) mod 2 ^ 32) mod 3), True)"
    by (rule selection_index) (simp_all add: list_all_iff)
  then have "selection ''svc'' (replicate 4294967297 ?eps) Map.empty 4294967297 =
      Inr (Some \<lparr>Address = ''a'', Port = 1\<rparr>, True)"
    by simp
  then show ?thesis by simp
qed


subsection \<open>Concurrent selections\<close>

lemma returned_hold:
  "i < length calls \<Longrightarrow> calls ! i = NotStarted \<Longrightarrow> returned (calls[i := HoldsCounter]) = returned calls"
proof (induction calls arbitrary: i)
  case Nil
  then show ?case by simp
next
  case (Cons c calls)
  then show ?case by (cases i; cases c) simp_all
qed

lemma returned_return:
  "i < length calls \<Longrightarrow> calls ! i = HoldsCounter \<Longrightarrow>
   set (returned (calls[i := Returned v])) = insert v (set (returned calls))
   \<and> length (returned (calls[i := Returned v])) = Suc (length (returned calls))"
proof (induction calls arbitrary: i)
  case Nil
  then show ?case by simp
next
  case (Cons c calls)
  then show ?case by (cases i; cases c) auto
qed

lemma LoadOrStore_counter: "counter (snd (LoadOrStore rr s 0)) t = counter rr t"
  by (cases "rr s") (simp_all add: LoadOrStore_def counter_def)

lemma Add_counter: "Add rr s 1 = (counter rr s + 1, rr(s \<mapsto> counter rr s + 1))"
  by (simp add: Add_def counter_def Let_def)

lemma stepCall_noLostUpdate:
  assumes "noLostUpdate s c0 cfg"
  shows "noLostUpdate s c0 (stepCall s i cfg)"
proof -
  obtain rr calls where cfg: "cfg = (rr, calls)" by (cases cfg)
  from assms cfg have cnt: "counter rr s = c0 + of_nat (length (returned calls))"
    and vals: "set (returned calls) = (\<lambda>j. c0 + of_nat (Suc j)) ` {0..<length (returned calls)}"
    by (simp_all add: noLostUpdate_def)
  show ?thesis
  proof (cases "i < length calls")
    case False
    then show ?thesis using assms cfg by (simp add: stepCall_def)
  next
    case True
    show ?thesis
    proof (cases "calls ! i")
      case NotStarted
      then show ?thesis
        using True cnt vals
        by (simp add: cfg stepCall_def noLostUpdate_def returned_hold LoadOrStore_counter)
    next
      case HoldsCounter
      let ?d = "length (returned calls)"
      let ?v = "counter rr s + 1"
      from returned_return [OF True HoldsCounter, of ?v]
      have s': "set (returned (calls[i := Returned ?v])) = insert ?v (set (returned calls))"
        and l': "length (returned (calls[i := Returned ?v])) = Suc ?d"
        by simp_all
      have v: "?v = c0 + of_nat (Suc ?d)" by (simp add: cnt)
      have "insert ?v (set (returned calls)) = (\<lambda>j. c0 + of_nat (Suc j)) ` {0..<Suc ?d}"
        by (simp only: vals v atLeast0_lessThan_Suc image_insert)
      then have "set (returned (calls[i := Returned ?v])) =
          (\<lambda>j. c0 + of_nat (Suc j)) ` {0..<length (returned (calls[i := Returned ?v]))}"
        by (simp only: s' l')
      moreover have "counter (rr(s \<mapsto> ?v)) s = c0 + of_nat (length (returned (calls[i := Returned ?v])))"
      proof -
        have "counter (rr(s \<mapsto> ?v)) s = ?v" by (simp add: counter_def)
        also have "\<dots> = c0 + of_nat (Suc ?d)" by (rule v)
        also have "\<dots> = c0 + of_nat (length (returned (calls[i := Returned ?v])))"
          by (simp only: l')
        finally show ?thesis .
      qed
      moreover have "stepCall s i cfg = (rr(s \<mapsto> ?v), calls[i := Returned ?v])"
        using True HoldsCounter by (simp add: cfg stepCall_def Add_counter)
      ultimately show ?thesis
        by (simp only: noLostUpdate_def fst_conv snd_conv)
    next
      case (Returned v)
      then show ?thesis using True assms cfg by (simp add: stepCall_def)
    qed
  qed
qed

lemma interleave_noLostUpdate:
  "noLostUpdate s c0 cfg \<Longrightarrow> noLostUpdate s c0 (interleave s schedule cfg)"
  by (induction schedule arbitrary: cfg) (simp_all add: stepCall_noLostUpdate)

lemma returned_replicate: "returned (replicate n NotStarted) = []"
  by (induction n) simp_all

lemma returned_length: "length (returned calls) \<le> length calls"
  by (induction calls rule: returned.induct) simp_all

lemma stepCall_length: "length (snd (stepCall s i cfg)) = length (snd cfg)"
  by (cases cfg) (simp add: stepCall_def split: callState.split prod.split)

lemma interleave_length: "length (snd (interleave s schedule cfg)) = length (snd cfg)"
  by (induction schedule arbitrary: cfg) (simp_all add: stepCall_length)

lemma uint32_of_nat_inj: "inj_on (\<lambda>j. c0 + (of_nat (Suc j) :: uint32)) {0..<d}" if "d \<le> 2 ^ 32"
proof (rule inj_onI)
  fix x y assume x: "x \<in> {0..<d}" and y: "y \<in> {0..<d}"
    and e: "c0 + (of_nat (Suc x) :: uint32) = c0 + of_nat (Suc y)"
  have ux: "unat (of_nat (Suc x) :: uint32) = Suc x mod 2 ^ 32"
    by (simp only: unat_of_nat) simp
  have uy: "unat (of_nat (Suc y) :: uint32) = Suc y mod 2 ^ 32"
    by (simp only: unat_of_nat) simp
  from e have "(of_nat (Suc x) :: uint32) = of_nat (Suc y)"
    by (simp only: add_left_cancel)
  then have "unat (of_nat (Suc x) :: uint32) = unat (of_nat (Suc y) :: uint32)"
    by (rule arg_cong)
  then have "Suc x mod 2 ^ 32 = Suc y mod 2 ^ 32"
    by (simp only: ux uy)
  moreover from x y that have "x < 2 ^ 32" "y < 2 ^ 32" by auto
  ultimately show "x = y"
    by (metis Suc_lessI mod_less mod_self nat.inject nat.simps(3) not_less_eq)
qed

text \<open>
  However the steps of \<open>n\<close> concurrent selections for a service interleave, the counter
  has advanced by the number of calls that have returned, these calls have received the
  values that follow the old counter, and (for at most \<open>2 ^ 32\<close> calls) no two of them
  the same value.
\<close>

lemma interleaved_selections:
  assumes "interleave s schedule (rr, replicate n NotStarted) = (rr', calls)"
  shows "counter rr' s = counter rr s + of_nat (length (returned calls))"
    and "set (returned calls) = (\<lambda>j. counter rr s + of_nat (Suc j)) ` {0..<length (returned calls)}"
    and "n \<le> 2 ^ 32 \<Longrightarrow> distinct (returned calls)"
proof -
  have "noLostUpdate s (counter rr s) (rr, replicate n NotStarted)"
    by (simp add: noLostUpdate_def returned_replicate)
  then have "noLostUpdate s (counter rr s) (interleave s schedule (rr, replicate n NotStarted))"
    by (rule interleave_noLostUpdate)
  with assms show c: "counter rr' s = counter rr s + of_nat (length (returned calls))"
    and v: "set (returned calls) =
        (\<lambda>j. counter rr s + of_nat (Suc j)) ` {0..<length (returned calls)}"
    by (simp_all add: noLostUpdate_def)
  show "distinct (returned calls)" if n: "n \<le> 2 ^ 32"
  proof -
    have "length calls = n"
      using interleave_length [of s schedule "(rr, replicate n NotStarted)"] assms by simp
    with returned_length [of calls] n have d: "length (returned calls) \<le> 2 ^ 32" by simp
    have "card (set (returned calls)) = card {0..<length (returned calls)}"
      by (simp only: v card_image [OF uint32_of_nat_inj [OF d]])
    then have "card (set (returned calls)) = length (returned calls)" by simp
    then show ?thesis by (rule card_distinct)
  qed
qed

text \<open>
  C8. A selection against a list that is not empty adds exactly one, modulo \<open>2 ^ 32\<close>,
  to the counter of its service (created at zero when absent), leaves the entry in the
  table and every other entry as it is, and selects index
  \<open>(counter after the increment - 1) mod uint32 (len endpoints)\<close> in 32-bit arithmetic,
  which is that value modulo the length for a list shorter than \<open>2 ^ 32\<close>. The
  increment is atomic: when the steps of \<open>n\<close> concurrent selections interleave, the
  counter has advanced by the number of calls that have returned and these calls hold the
  values that follow the old counter, no two the same for \<open>n \<le> 2 ^ 32\<close>.
\<close>

theorem counter_increment_wraps:
  assumes "endpoints \<noteq> []"
    and "interleave serviceName schedule (rr0, replicate n NotStarted) = (rr', calls)"
  shows "snd (getNextEndpoint serviceName endpoints rr) = rr(serviceName \<mapsto> counter rr serviceName + 1)
       \<and> unat (counter (snd (getNextEndpoint serviceName endpoints rr)) serviceName) =
           (unat (counter rr serviceName) + 1) mod 2 ^ 32
       \<and> fst (getNextEndpoint serviceName endpoints rr) =
           (if (of_nat (length endpoints) :: uint32) = 0 then Inl DivideByZero
            else Inr (endpoints !
                   unat ((counter (snd (getNextEndpoint serviceName endpoints rr)) serviceName - 1)
                           mod of_nat (length endpoints)), True))
       \<and> (length endpoints < 2 ^ 32 \<longrightarrow>
            fst (getNextEndpoint serviceName endpoints rr) =
              Inr (endpoints !
                     (unat (counter (snd (getNextEndpoint serviceName endpoints rr)) serviceName - 1)
                        mod length endpoints), True))
       \<and> counter rr' serviceName = counter rr0 serviceName + of_nat (length (returned calls))
       \<and> set (returned calls) =
           (\<lambda>j. counter rr0 serviceName + of_nat (Suc j)) ` {0..<length (returned calls)}
       \<and> (n \<le> 2 ^ 32 \<longrightarrow> distinct (returned calls))"
proof -
  let ?g = "getNextEndpoint serviceName endpoints rr"
  have st: "snd ?g = rr(serviceName \<mapsto> counter rr serviceName + 1)"
    using assms(1) by (simp add: getNextEndpoint_step)
  have new: "counter (snd ?g) serviceName = counter rr serviceName + 1"
    by (simp add: st counter_upd)
  have wrap: "unat (counter (snd ?g) serviceName) = (unat (counter rr serviceName) + 1) mod 2 ^ 32"
    by (simp add: new unat_word_ariths)
  have res: "fst ?g =
           (if (of_nat (length endpoints) :: uint32) = 0 then Inl DivideByZero
            else Inr (endpoints !
                   unat ((counter (snd ?g) serviceName - 1) mod of_nat (length endpoints)), True))"
    using assms(1) by (simp add: new) (simp add: getNextEndpoint_step)
  have short: "fst ?g =
       Inr (endpoints ! (unat (counter (snd ?g) serviceName - 1) mod length endpoints), True)"
    if "length endpoints < 2 ^ 32"
  proof -
    from assms(1) have "0 < length endpoints" by simp
    from uint32_of_length [OF this that] res show ?thesis
      by (simp add: unat_mod_distrib)
  qed
  note conc = interleaved_selections [OF assms(2)]
  from st wrap res short conc show ?thesis by blast
qed

text \<open>
  With the counter at \<open>2 ^ 32 - 1\<close> the next selection wraps it to 0 and takes index
  \<open>(2 ^ 32 - 1) mod 3 = 0\<close>; two concurrent selections of a new service whose steps
  alternate get the values 2 and 1.
\<close>

theorem counter_increment_wraps_witness:
  "[Some \<lparr>Address = ''a'', Port = 1\<rparr>, Some \<lparr>Address = ''b'', Port = 2\<rparr>,
    Some \<lparr>Address = ''c'', Port = 3\<rparr>] \<noteq> []
   \<and> interleave ''svc'' [0, 1, 1, 0] (Map.empty, replicate 2 NotStarted) =
       ([''svc'' \<mapsto> 2], [Returned 2, Returned 1])
   \<and> snd (getNextEndpoint ''svc''
        [Some \<lparr>Address = ''a'', Port = 1\<rparr>, Some \<lparr>Address = ''b'', Port = 2\<rparr>,
         Some \<lparr>Address = ''c'', Port = 3\<rparr>] [''svc'' \<mapsto> 4294967295]) ''svc'' = Some 0
   \<and> fst (getNextEndpoint ''svc''
        [Some \<lparr>Address = ''a'', Port = 1\<rparr>, Some \<lparr>Address = ''b'', Port = 2\<rparr>,
         Some \<lparr>Address = ''c'', Port = 3\<rparr>] [''svc'' \<mapsto> 4294967295]) =
       Inr (Some \<lparr>Address = ''a'', Port = 1\<rparr>, True)
   \<and> distinct (returned [Returned 2, Returned 1])"
proof -
  let ?eps = "[Some \<lparr>Address = ''a'', Port = 1\<rparr>, Some \<lparr>Address = ''b'', Port = 2\<rparr>,
        Some \<lparr>Address = ''c'', Port = 3\<rparr>]"
  let ?rr = "[''svc'' \<mapsto> 4294967295] :: rrtable"
  have ne: "?eps \<noteq> []" by simp
  have c: "counter ?rr ''svc'' + 1 = 0" by (simp add: counter_def)
  have two: "replicate 2 NotStarted = [NotStarted, NotStarted]"
    by (simp add: numeral_2_eq_2)
  have "interleave ''svc'' [0, 1, 1, 0] (Map.empty, [NotStarted, NotStarted]) =
       ([''svc'' \<mapsto> 2], [Returned 2, Returned 1])"
    by (simp add: stepCall_def LoadOrStore_def Add_def)
  then have run: "interleave ''svc'' [0, 1, 1, 0] (Map.empty, replicate 2 NotStarted) =
       ([''svc'' \<mapsto> 2], [Returned 2, Returned 1])"
    by (simp only: two)
  note w = counter_increment_wraps [OF ne run, where rr = ?rr]
  from w have "snd (getNextEndpoint ''svc'' ?eps ?rr) = ?rr(''svc'' \<mapsto> counter ?rr ''svc'' + 1)"
    by blast
  then have st: "snd (getNextEndpoint ''svc'' ?eps ?rr) ''svc'' = Some 0"
    by (simp only: c) simp
  then have c': "counter (snd (getNextEndpoint ''svc'' ?eps ?rr)) ''svc'' = 0"
    by (simp add: counter_def)
  have lt: "length ?eps < 2 ^ 32" by simp
  have m1: "unat (0 - 1 :: uint32) mod length ?eps = 0"
    by (simp add: unsigned_minus_1_eq_mask mask_eq_exp_minus_1)
  from w lt have "fst (getNextEndpoint ''svc'' ?eps ?rr) =
      Inr (?eps ! (unat (counter (snd (getNextEndpoint ''svc'' ?eps ?rr)) ''svc'' - 1)
                     mod length ?eps), True)"
    by blast
  then have "fst (getNextEndpoint ''svc'' ?eps ?rr) = Inr (?eps ! 0, True)"
    by (simp only: c' m1)
  then have r: "fst (getNextEndpoint ''svc'' ?eps ?rr) = Inr (Some \<lparr>Address = ''a'', Port = 1\<rparr>, True)"
    by simp
  have n: "(2::nat) \<le> 2 ^ 32" by simp
  from w n have d: "distinct (returned [Returned 2, Returned 1])"
    by blast
  from ne run st r d show ?thesis by blast
qed

subsection \<open>The dispatcher\<close>

lemma emit_simps [simp]:
  "rrIndices (emit e s) = rrIndices s"
  "maps (emit e s) = maps s"
  "nextMap (emit e s) = nextMap s"
  "trace (emit e s) = trace s @ [e]"
  by (simp_all add: emit_def)

lemma Request_resolution_error:
  "discovery c serviceName = Inl err \<Longrightarrow>
   Request rt c serviceName method path body headers s =
     (Inr (Inl err), emit (EvGetEndpoints serviceName) s)"
  by (simp add: Request_def)

lemma Request_no_endpoint:
  "discovery c serviceName = Inr [] \<Longrightarrow>
   Request rt c serviceName method path body headers s =
     (Inr (Inl ErrNoAvailableEndpoint),
      emit (EvSelect serviceName) (emit (EvGetEndpoints serviceName) s))"
  by (simp add: Request_def getNextEndpoint_empty emit_def)

text \<open>
  C2. Selecting against an empty list returns the nil endpoint with \<open>ok = False\<close>, without
  a panic and without touching the table. When the directory returns the empty list,
  \<^verbatim>\<open>Request\<close> returns the sentinel \<^verbatim>\<open>ErrNoAvailableEndpoint\<close>, asks the library for no
  request and hands none to the transport. When the directory fails, \<^verbatim>\<open>Request\<close> returns
  the error of the directory as it is, so a failed lookup ends with the sentinel only if
  the directory itself returned it.
\<close>

theorem empty_list_no_endpoint:
  "getNextEndpoint serviceName [] rr = (Inr (None, False), rr)
   \<and> (discovery c serviceName = Inr [] \<longrightarrow>
        Request rt c serviceName httpMethod path body headers s =
          (Inr (Inl ErrNoAvailableEndpoint),
           emit (EvSelect serviceName) (emit (EvGetEndpoints serviceName) s))
        \<and> requestsOf (eventsSince s (snd (Request rt c serviceName httpMethod path body headers s))) = []
        \<and> urlsBuilt (eventsSince s (snd (Request rt c serviceName httpMethod path body headers s))) = []
        \<and> rrIndices (snd (Request rt c serviceName httpMethod path body headers s)) = rrIndices s)
   \<and> (discovery c serviceName = Inl err \<longrightarrow>
        fst (Request rt c serviceName httpMethod path body headers s) = Inr (Inl err)
        \<and> (err \<noteq> ErrNoAvailableEndpoint \<longrightarrow>
             fst (Request rt c serviceName httpMethod path body headers s)
               \<noteq> Inr (Inl ErrNoAvailableEndpoint)))"
  by (simp add: getNextEndpoint_empty Request_no_endpoint Request_resolution_error eventsSince_def)

text \<open>
  The service \<open>idle\<close> has no endpoint and gets the sentinel; the service \<open>gone\<close> is
  unknown to the directory and gets the directory's error.
\<close>

theorem empty_list_no_endpoint_witness:
  "discovery (sampleClient None \<lparr>StatusCode = 200, Body = \<lparr>content = [], failure = None\<rparr>\<rparr>) ''idle''
      = Inr []
   \<and> discovery (sampleClient None \<lparr>StatusCode = 200, Body = \<lparr>content = [], failure = None\<rparr>\<rparr>) ''gone''
      = Inl (DirectoryError ''unknown service'')
   \<and> DirectoryError ''unknown service'' \<noteq> ErrNoAvailableEndpoint
   \<and> getNextEndpoint ''idle'' [] Map.empty = (Inr (None, False), Map.empty)
   \<and> fst (Request sampleRuntime
             (sampleClient None \<lparr>StatusCode = 200, Body = \<lparr>content = [], failure = None\<rparr>\<rparr>)
             ''idle'' ''GET'' ''/x'' [] None (sampleState Map.empty))
       = Inr (Inl ErrNoAvailableEndpoint)
   \<and> fst (Request sampleRuntime
             (sampleClient None \<lparr>StatusCode = 200, Body = \<lparr>content = [], failure = None\<rparr>\<rparr>)
             ''gone'' ''GET'' ''/x'' [] None (sampleState Map.empty))
       = Inr (Inl (DirectoryError ''unknown service''))
   \<and> fst (Request sampleRuntime
             (sampleClient None \<lparr>StatusCode = 200, Body = \<lparr>content = [], failure = None\<rparr>\<rparr>)
             ''gone'' ''GET'' ''/x'' [] None (sampleState Map.empty))
       \<noteq> Inr (Inl ErrNoAvailableEndpoint)"
proof -
  let ?c = "sampleClient None \<lparr>StatusCode = 200, Body = \<lparr>content = [], failure = None\<rparr>\<rparr>"
  have a: "discovery ?c ''idle'' = Inr []" by (simp add: sampleClient_def)
  have b: "discovery ?c ''gone'' = Inl (DirectoryError ''unknown service'')"
    by (simp add: sampleClient_def)
  have d: "DirectoryError ''unknown service'' \<noteq> ErrNoAvailableEndpoint" by simp
  note w1 = empty_list_no_endpoint [where serviceName = "''idle''" and rr = Map.empty
      and c = ?c and rt = sampleRuntime and httpMethod = "''GET''" and path = "''/x''"
      and body = "[]" and headers = None and s = "sampleState Map.empty"]
  note w2 = empty_list_no_endpoint [where serviceName = "''gone''" and c = ?c
      and err = "DirectoryError ''unknown service''" and rt = sampleRuntime
      and httpMethod = "''GET''" and path = "''/x''" and body = "[]" and headers = None
      and s = "sampleState Map.empty"]
  from w1 have 1: "getNextEndpoint ''idle'' [] Map.empty = (Inr (None, False), Map.empty)"
    by blast
  from w1 a have 2: "fst (Request sampleRuntime ?c ''idle'' ''GET'' ''/x'' [] None (sampleState Map.empty))
       = Inr (Inl ErrNoAvailableEndpoint)"
    by simp
  from w2 b d have 3: "fst (Request sampleRuntime ?c ''gone'' ''GET'' ''/x'' [] None (sampleState Map.empty))
       = Inr (Inl (DirectoryError ''unknown service''))"
    by simp
  from a b d 1 2 3 show ?thesis by simp
qed

lemma eventsSince_append [simp]:
  "trace s' = trace s @ evs \<Longrightarrow> eventsSince s s' = evs"
  by (simp add: eventsSince_def)

lemma Request_selected:
  assumes "discovery c serviceName = Inr endpoints"
    and "getNextEndpoint serviceName endpoints (rrIndices s) = (Inr (Some ep, True), rr')"
  shows "Request rt c serviceName method path body headers s =
     (let url = specURL c ep path;
          s2 = emit (EvNewRequest method url)
                 (emit (EvSelect serviceName) ((emit (EvGetEndpoints serviceName) s)\<lparr>rrIndices := rr'\<rparr>))
      in case NewRequestWithContext rt method url of
           Inl err \<Rightarrow> (Inr (Inl (Errorf (''failed to create HTTP request: '' @ err))), s2)
         | Inr (m, u) \<Rightarrow>
             (let req = \<lparr>reqMethod = m, reqURL = u, reqBody = body,
                         reqHeader = (case headers of
                                        None \<Rightarrow> Map.empty
                                      | Some a \<Rightarrow> copyHeaders (maps s a) (rangeKeys rt (maps s a)) Map.empty)\<rparr>
              in (case httpClient c req of
                    Inl err \<Rightarrow> Inr (Inl (Errorf (''failed to perform HTTP request: '' @ err)))
                  | Inr resp \<Rightarrow> Inr (Inr resp),
                  emit (EvDo req) s2)))"
proof (cases "NewRequestWithContext rt method (specURL c ep path)")
  case (Inr mu)
  then show ?thesis
    using assms
    by (cases "tlsConfig c"; cases headers; cases mu)
      (simp_all add: Request_def specURL_def Let_def split: sum.split)
next
  case (Inl e)
  then show ?thesis
    using assms by (cases "tlsConfig c") (simp_all add: Request_def specURL_def Let_def)
qed

text \<open>
  C7. When \<^verbatim>\<open>Request\<close> has selected an endpoint, the target URL it builds and hands to
  \<^verbatim>\<open>http.NewRequestWithContext\<close> is the scheme (\<open>https\<close> exactly when the TLS
  configuration is not nil, else \<open>http\<close>), the address and the port of that endpoint, and
  the caller's path as it is. The request that reaches the transport, if the library
  makes one, carries what the library has made of this URL.
\<close>

theorem request_target_url:
  assumes "discovery c serviceName = Inr endpoints"
    and "fst (getNextEndpoint serviceName endpoints (rrIndices s)) = Inr (Some ep, True)"
  shows "urlsBuilt (eventsSince s (snd (Request rt c serviceName httpMethod path body headers s)))
           = [specURL c ep path]
       \<and> specURL c ep path =
           (if tlsConfig c \<noteq> None then ''https://'' else ''http://'') @
           Address ep @ '':'' @ fmt_d (Port ep) @ path
       \<and> map reqURL (requestsOf (eventsSince s (snd (Request rt c serviceName httpMethod path body headers s))))
           = (case NewRequestWithContext rt httpMethod (specURL c ep path) of
                Inl err \<Rightarrow> []
              | Inr (m, u) \<Rightarrow> [u])"
proof -
  obtain rr' where sel: "getNextEndpoint serviceName endpoints (rrIndices s) = (Inr (Some ep, True), rr')"
    using assms(2) by (cases "getNextEndpoint serviceName endpoints (rrIndices s)") simp
  show ?thesis
    by (simp add: Request_selected [OF assms(1) sel] Let_def eventsSince_def specURL_def
        split: sum.split prod.split)
qed

text \<open>A path with a doubled slash, dots and a query is part of the URL as it was given.\<close>

theorem request_target_url_witness:
  "discovery (sampleClient (Some TlsConfig) \<lparr>StatusCode = 200, Body = \<lparr>content = [], failure = None\<rparr>\<rparr>)
      ''svc''
     = Inr [Some \<lparr>Address = ''10.0.0.1'', Port = 8080\<rparr>, Some \<lparr>Address = ''10.0.0.2'', Port = 443\<rparr>]
   \<and> fst (getNextEndpoint ''svc''
            [Some \<lparr>Address = ''10.0.0.1'', Port = 8080\<rparr>, Some \<lparr>Address = ''10.0.0.2'', Port = 443\<rparr>]
            (rrIndices (sampleState Map.empty)))
       = Inr (Some \<lparr>Address = ''10.0.0.1'', Port = 8080\<rparr>, True)
   \<and> urlsBuilt (eventsSince (sampleState Map.empty)
        (snd (Request sampleRuntime
                (sampleClient (Some TlsConfig)
                   \<lparr>StatusCode = 200, Body = \<lparr>content = [], failure = None\<rparr>\<rparr>)
                ''svc'' ''GET'' ''/api//users/../x y?id=1'' [] None (sampleState Map.empty))))
       = [''https://10.0.0.1:8080/api//users/../x y?id=1'']"
proof -
  let ?c = "sampleClient (Some TlsConfig) \<lparr>StatusCode = 200, Body = \<lparr>content = [], failure = None\<rparr>\<rparr>"
  let ?eps = "[Some \<lparr>Address = ''10.0.0.1'', Port = 8080\<rparr>, Some \<lparr>Address = ''10.0.0.2'', Port = 443\<rparr>]"
  let ?ep = "\<lparr>Address = ''10.0.0.1'', Port = 8080\<rparr>"
  have a: "discovery ?c ''svc'' = Inr ?eps" by (simp add: sampleClient_def)
  have b: "fst (getNextEndpoint ''svc'' ?eps (rrIndices (sampleState Map.empty))) = Inr (Some ?ep, True)"
    by (simp add: getNextEndpoint_step counter_def sampleState_def)
  have u: "specURL ?c ?ep ''/api//users/../x y?id=1'' = ''https://10.0.0.1:8080/api//users/../x y?id=1''"
    by (simp add: specURL_def sampleClient_def fmt_d_def decimal.simps)
  from request_target_url [OF a b, where rt = sampleRuntime and httpMethod = "''GET''"
      and path = "''/api//users/../x y?id=1''" and body = "[]" and headers = None]
  have "urlsBuilt (eventsSince (sampleState Map.empty)
        (snd (Request sampleRuntime ?c ''svc'' ''GET'' ''/api//users/../x y?id=1'' [] None
                (sampleState Map.empty))))
       = [specURL ?c ?ep ''/api//users/../x y?id=1'']"
    by blast
  then have "urlsBuilt (eventsSince (sampleState Map.empty)
        (snd (Request sampleRuntime ?c ''svc'' ''GET'' ''/api//users/../x y?id=1'' [] None
                (sampleState Map.empty))))
       = [''https://10.0.0.1:8080/api//users/../x y?id=1'']"
    by (simp only: u)
  with a b show ?thesis by blast
qed

subsection \<open>The codec layer\<close>

text \<open>
  C6. When the body of a \<^verbatim>\<open>JsonPost\<close> or \<^verbatim>\<open>JsonPut\<close> does not serialize as JSON, or the
  body of an \<^verbatim>\<open>XmlPost\<close> or \<^verbatim>\<open>XmlPut\<close> not as XML, the call returns the encode error and
  leaves the state as it found it: no event is added (no lookup in the directory, no
  selection, no request to the transport) and neither the rotation table nor a header
  map changes.
\<close>

theorem encode_error_before_network:
  "(jsonMarshal rt reqObj = Inl err \<longrightarrow>
      JsonPost rt c serviceName path reqObj headers respObj s =
        (Inr (Some (Errorf (''failed to marshal request object: '' @ err)), respObj), s)
      \<and> JsonPut rt c serviceName path reqObj headers respObj s =
        (Inr (Some (Errorf (''failed to marshal request object: '' @ err)), respObj), s)
      \<and> eventsSince s (snd (JsonPost rt c serviceName path reqObj headers respObj s)) = []
      \<and> eventsSince s (snd (JsonPut rt c serviceName path reqObj headers respObj s)) = [])
   \<and> (xmlMarshal rt reqObj = Inl err' \<longrightarrow>
      XmlPost rt c serviceName path reqObj headers respObj s =
        (Inr (Some (Errorf (''failed to marshal request object: '' @ err')), respObj), s)
      \<and> XmlPut rt c serviceName path reqObj headers respObj s =
        (Inr (Some (Errorf (''failed to marshal request object: '' @ err')), respObj), s)
      \<and> eventsSince s (snd (XmlPost rt c serviceName path reqObj headers respObj s)) = []
      \<and> eventsSince s (snd (XmlPut rt c serviceName path reqObj headers respObj s)) = [])"
  by (simp add: JsonPost_def JsonPut_def XmlPost_def XmlPut_def eventsSince_def)

text \<open>
  The object \<open>nan\<close> fails as JSON only, the object \<open>map\<close> as XML only; either call
  ends with its encode error and the state it began with.
\<close>

theorem encode_error_before_network_witness:
  "jsonMarshal sampleRuntime ''nan'' = Inl ''json: unsupported value''
   \<and> xmlMarshal sampleRuntime ''map'' = Inl ''xml: unsupported type''
   \<and> JsonPost sampleRuntime
        (sampleClient None \<lparr>StatusCode = 200, Body = \<lparr>content = [], failure = None\<rparr>\<rparr>)
        ''svc'' ''/x'' ''nan'' (Some 0) None (sampleState Map.empty)
       = (Inr (Some (Errorf ''failed to marshal request object: json: unsupported value''), None),
          sampleState Map.empty)
   \<and> XmlPut sampleRuntime
        (sampleClient None \<lparr>StatusCode = 200, Body = \<lparr>content = [], failure = None\<rparr>\<rparr>)
        ''svc'' ''/x'' ''map'' (Some 0) None (sampleState Map.empty)
       = (Inr (Some (Errorf ''failed to marshal request object: xml: unsupported type''), None),
          sampleState Map.empty)"
proof -
  let ?c = "sampleClient None \<lparr>StatusCode = 200, Body = \<lparr>content = [], failure = None\<rparr>\<rparr>"
  have a: "jsonMarshal sampleRuntime ''nan'' = Inl ''json: unsupported value''"
    by (simp add: sampleRuntime_def)
  have b: "xmlMarshal sampleRuntime ''map'' = Inl ''xml: unsupported type''"
    by (simp add: sampleRuntime_def)
  note w1 = encode_error_before_network [where rt = sampleRuntime and reqObj = "''nan''"
      and err = "''json: unsupported value''" and c = ?c and serviceName = "''svc''"
      and path = "''/x''" and headers = "Some 0" and respObj = None and s = "sampleState Map.empty"]
  note w2 = encode_error_before_network [where rt = sampleRuntime and reqObj = "''map''"
      and err' = "''xml: unsupported type''" and c = ?c and serviceName = "''svc''"
      and path = "''/x''" and headers = "Some 0" and respObj = None and s = "sampleState Map.empty"]
  from w1 a have 1: "JsonPost sampleRuntime ?c ''svc'' ''/x'' ''nan'' (Some 0) None (sampleState Map.empty)
       = (Inr (Some (Errorf (''failed to marshal request object: '' @ ''json: unsupported value'')), None),
          sampleState Map.empty)"
    by blast
  from w2 b have 2: "XmlPut sampleRuntime ?c ''svc'' ''/x'' ''map'' (Some 0) None (sampleState Map.empty)
       = (Inr (Some (Errorf (''failed to marshal request object: '' @ ''xml: unsupported type'')), None),
          sampleState Map.empty)"
    by blast
  from a b 1 2 show ?thesis by simp
qed

lemmas canonical_defs =
  CanonicalMIMEHeaderKey_def validHeaderFieldByte_def isLower_def isUpper_def isDigit_def
  lowerLetters_def upperLetters_def Let_def

lemma canonical_Accept [simp]: "CanonicalMIMEHeaderKey HeaderAccept = HeaderAccept"
  by (simp add: HeaderAccept_def canonical_defs)

lemma canonical_ContentType [simp]: "CanonicalMIMEHeaderKey HeaderContentType = HeaderContentType"
  by (simp add: HeaderContentType_def canonical_defs)

lemma header_names_differ [simp]:
  "HeaderAccept \<noteq> HeaderContentType" "HeaderContentType \<noteq> HeaderAccept"
  by (simp_all add: HeaderAccept_def HeaderContentType_def)

lemma firstValue_defaulted:
  "firstValue (defaulted media h) key =
     (if (key = HeaderAccept \<or> key = HeaderContentType) \<and> firstValue h key = [] then media
      else firstValue h key)"
  by (simp add: defaulted_def firstValue_def)

text \<open>The defaults, one header after the other, amount to \<open>defaulted\<close>.\<close>

lemma defaults_in_sequence:
  "(let h1 = (if firstValue h HeaderAccept = [] then h(HeaderAccept \<mapsto> [media]) else h)
    in if firstValue h1 HeaderContentType = [] then h1(HeaderContentType \<mapsto> [media]) else h1)
   = defaulted media h"
  by (rule ext) (simp add: defaulted_def firstValue_def Let_def)

lemma MIMEHeader_Get_firstValue:
  "MIMEHeader_Get s (Some a) key = firstValue (maps s a) (CanonicalMIMEHeaderKey key)"
  by (simp add: MIMEHeader_Get_def firstValue_def)

lemma withDefaults_Some:
  "withDefaults media (Some a) s =
     (Some a, s\<lparr>maps := (maps s)(a := defaulted media (maps s a))\<rparr>)"
proof -
  have "defaulted media (maps s a) =
      (let h1 = (if firstValue (maps s a) HeaderAccept = []
                 then (maps s a)(HeaderAccept \<mapsto> [media]) else maps s a)
       in if firstValue h1 HeaderContentType = [] then h1(HeaderContentType \<mapsto> [media]) else h1)"
    by (simp only: defaults_in_sequence)
  then show ?thesis
    by (simp add: withDefaults_def MIMEHeader_Get_firstValue MIMEHeader_Set_def Let_def)
qed

lemma withDefaults_None:
  "withDefaults media None s =
     (Some (nextMap s),
      s\<lparr>maps := (maps s)(nextMap s := defaulted media Map.empty), nextMap := nextMap s + 1\<rparr>)"
proof -
  have "defaulted media Map.empty = [HeaderAccept \<mapsto> [media], HeaderContentType \<mapsto> [media]]"
    by (rule ext) (simp add: defaulted_def firstValue_def)
  then show ?thesis
    by (simp add: withDefaults_def make_MIMEHeader_def MIMEHeader_Get_firstValue MIMEHeader_Set_def
        Let_def firstValue_def)
qed

text \<open>
  Neither \<^verbatim>\<open>Set\<close> of the two functions meets a nil map, so both are the common text.
\<close>

lemma codecRequest_unfold:
  "codecRequest media dec label rt c serviceName method path body headers0 respObj s0 =
     (case (case headers0 of
              None \<Rightarrow> (case make_MIMEHeader s0 of (a, s) \<Rightarrow> (Some a, s))
            | Some a \<Rightarrow> (headers0, s0)) of
        (headers, s1) \<Rightarrow>
          (case (if MIMEHeader_Get s1 headers HeaderAccept = []
                 then MIMEHeader_Set headers HeaderAccept media s1 else (Inr (), s1)) of
             (Inl p, s2) \<Rightarrow> (Inl p, s2)
           | (Inr _, s2) \<Rightarrow>
               (case (if MIMEHeader_Get s2 headers HeaderContentType = []
                      then MIMEHeader_Set headers HeaderContentType media s2 else (Inr (), s2)) of
                  (Inl p, s3) \<Rightarrow> (Inl p, s3)
                | (Inr _, s3) \<Rightarrow>
                    (case Request rt c serviceName method path body headers s3 of
                       (Inl p, s4) \<Rightarrow> (Inl p, s4)
                     | (Inr (Inl err), s4) \<Rightarrow> (Inr (Some err, respObj), s4)
                     | (Inr (Inr resp), s4) \<Rightarrow>
                         (case classify dec label resp respObj s4 of
                            (result, s6) \<Rightarrow> (Inr result, emit EvBodyClose s6))))))"
  by (cases headers0)
    (simp_all add: codecRequest_def withDefaults_def make_MIMEHeader_def MIMEHeader_Set_def Let_def)

lemma JsonRequest_codec:
  "JsonRequest rt c serviceName method path body headers0 respObj s0 =
     codecRequest MediaJson (jsonDecode rt) ''JSON'' rt c serviceName method path body headers0 respObj s0"
  unfolding codecRequest_unfold classify_def JsonRequest_def append.simps ..

lemma XmlRequest_codec:
  "XmlRequest rt c serviceName method path body headers0 respObj s0 =
     codecRequest MediaXml (xmlDecode rt) ''XML'' rt c serviceName method path body headers0 respObj s0"
  unfolding codecRequest_unfold classify_def XmlRequest_def append.simps ..

lemma Request_frame:
  "maps (snd (Request rt c serviceName method path body headers s)) = maps s
   \<and> nextMap (snd (Request rt c serviceName method path body headers s)) = nextMap s"
  by (simp add: Request_def Let_def split: sum.split option.split prod.split)

lemma Request_trace:
  "\<exists>evs. trace (snd (Request rt c serviceName method path body headers s)) = trace s @ evs
      \<and> bodyReads evs = [] \<and> EvBodyClose \<notin> set evs"
  by (simp add: Request_def Let_def split: sum.split option.split prod.split)

lemma Request_no_map_panic:
  "fst (Request rt c serviceName method path body headers s) \<noteq> Inl NilMapAssignment"
  by (simp add: Request_def Let_def getNextEndpoint_def LoadOrStore_def Add_def
      split: sum.split option.split prod.split)

text \<open>
  \<^verbatim>\<open>Request\<close> reads the state through the rotation table and the contents of the header
  map only.
\<close>

lemma Request_same:
  assumes "rrIndices s = rrIndices t" and "maps s a = maps t b"
  shows "fst (Request rt c serviceName method path body (Some a) s) =
         fst (Request rt c serviceName method path body (Some b) t)
       \<and> eventsSince s (snd (Request rt c serviceName method path body (Some a) s)) =
         eventsSince t (snd (Request rt c serviceName method path body (Some b) t))
       \<and> rrIndices (snd (Request rt c serviceName method path body (Some a) s)) =
         rrIndices (snd (Request rt c serviceName method path body (Some b) t))"
  using assms
  by (simp add: Request_def Let_def eventsSince_def split: sum.split option.split prod.split)

lemma withDefaults_trace [simp]:
  "trace (snd (withDefaults media headers0 s)) = trace s"
  "rrIndices (snd (withDefaults media headers0 s)) = rrIndices s"
  by (cases headers0; simp add: withDefaults_Some withDefaults_None)+

lemma bodyReads_append [simp]: "bodyReads (xs @ ys) = bodyReads xs @ bodyReads ys"
  by (induction xs rule: bodyReads.induct) simp_all

lemma requestsOf_append [simp]: "requestsOf (xs @ ys) = requestsOf xs @ requestsOf ys"
  by (induction xs rule: requestsOf.induct) simp_all

lemma drained_bodyReads: "drained evs = list_ex snd (bodyReads evs)"
  by (induction evs rule: drained.induct) simp_all

lemma classify_result:
  "fst (classify dec label resp respObj s4) =
     (if 200 \<le> StatusCode resp \<and> StatusCode resp < 300 then
        (case respObj of
           None \<Rightarrow> (None, None)
         | Some t \<Rightarrow>
             (case decodeErr (dec (Body resp) t) of
                Some err \<Rightarrow> Some (Errorf (''failed to decode '' @ label @ '' response: '' @ err))
              | None \<Rightarrow> None,
              Some (target (dec (Body resp) t))))
      else
        (Some (HttpStatusError (StatusCode resp)
                 (case failure (Body resp) of
                    None \<Rightarrow> content (Body resp)
                  | Some readErr \<Rightarrow> ''failed to read response body: '' @ readErr)),
         respObj))"
  by (simp add: classify_def NewHttpStatusError_def Let_def split: option.split)

lemma classify_state:
  "snd (classify dec label resp respObj s4) =
     s4\<lparr>trace := trace s4 @ map (\<lambda>(n, fin). EvBodyRead n fin) (readsFor dec resp respObj)\<rparr>"
  by (simp add: classify_def readsFor_def emit_def Let_def split: option.split)

lemma codecRequest_inner:
  "codecRequest media dec label rt c serviceName method path body headers0 respObj s0 =
     (case innerRequest media rt c serviceName method path body headers0 s0 of
        (Inl p, s4) \<Rightarrow> (Inl p, s4)
      | (Inr (Inl err), s4) \<Rightarrow> (Inr (Some err, respObj), s4)
      | (Inr (Inr resp), s4) \<Rightarrow>
          (Inr (fst (classify dec label resp respObj s4)),
           emit EvBodyClose (snd (classify dec label resp respObj s4))))"
  by (simp add: codecRequest_def innerRequest_def split: prod.split sum.split)

lemma codecRequest_response:
  assumes "fst (innerRequest media rt c serviceName method path body headers0 s0) = Inr (Inr resp)"
  shows "codecRequest media dec label rt c serviceName method path body headers0 respObj s0 =
     (Inr (fst (classify dec label resp respObj
                  (snd (innerRequest media rt c serviceName method path body headers0 s0)))),
      emit EvBodyClose
        (snd (classify dec label resp respObj
                  (snd (innerRequest media rt c serviceName method path body headers0 s0)))))"
  using assms
  by (cases "innerRequest media rt c serviceName method path body headers0 s0")
    (simp add: codecRequest_inner)

lemma innerRequest_trace:
  "\<exists>evs. trace (snd (innerRequest media rt c serviceName method path body headers0 s0)) =
            trace s0 @ evs \<and> bodyReads evs = [] \<and> EvBodyClose \<notin> set evs"
proof -
  have "\<exists>evs. trace (snd (Request rt c serviceName method path body
                           (fst (withDefaults media headers0 s0))
                           (snd (withDefaults media headers0 s0)))) =
            trace (snd (withDefaults media headers0 s0)) @ evs
          \<and> bodyReads evs = [] \<and> EvBodyClose \<notin> set evs"
    by (rule Request_trace)
  then show ?thesis
    by (simp add: innerRequest_def)
qed

lemma codecRequest_reads:
  assumes "fst (innerRequest media rt c serviceName method path body headers0 s0) = Inr (Inr resp)"
  shows "bodyReads (eventsSince s0
            (snd (codecRequest media dec label rt c serviceName method path body headers0 respObj s0)))
           = readsFor dec resp respObj
       \<and> last (trace
            (snd (codecRequest media dec label rt c serviceName method path body headers0 respObj s0)))
           = EvBodyClose"
proof -
  obtain evs where
    tr: "trace (snd (innerRequest media rt c serviceName method path body headers0 s0)) = trace s0 @ evs"
    and nr: "bodyReads evs = []"
    using innerRequest_trace by blast
  have m: "bodyReads (map (\<lambda>(n, fin). EvBodyRead n fin) rs) = rs" for rs
    by (induction rs) auto
  show ?thesis
    by (simp add: codecRequest_response [OF assms] classify_state eventsSince_def tr nr m)
qed

lemma codecRequest_status_error:
  assumes "fst (innerRequest media rt c serviceName method path body headers0 s0) = Inr (Inr resp)"
    and "StatusCode resp < 200 \<or> 300 \<le> StatusCode resp"
  shows "fst (codecRequest media dec label rt c serviceName method path body headers0 respObj s0) =
     Inr (Some (HttpStatusError (StatusCode resp)
                  (case failure (Body resp) of
                     None \<Rightarrow> content (Body resp)
                   | Some readErr \<Rightarrow> ''failed to read response body: '' @ readErr)),
          respObj)"
  using assms(2) by (auto simp add: codecRequest_response [OF assms(1)] classify_result)

text \<open>The calls of the examples reach the first endpoint of \<open>svc\<close> and get the response.\<close>

lemma sample_innerRequest:
  "fst (innerRequest media sampleRuntime (sampleClient tls resp) ''svc'' method path body (Some 0)
          (sampleState h)) = Inr (Inr resp)"
proof -
  let ?c = "sampleClient tls resp"
  let ?eps = "[Some \<lparr>Address = ''10.0.0.1'', Port = 8080\<rparr>, Some \<lparr>Address = ''10.0.0.2'', Port = 443\<rparr>]"
  let ?s = "snd (withDefaults media (Some 0) (sampleState h))"
  have a: "discovery ?c ''svc'' = Inr ?eps" by (simp add: sampleClient_def)
  have b: "getNextEndpoint ''svc'' ?eps (rrIndices ?s) =
      (Inr (Some \<lparr>Address = ''10.0.0.1'', Port = 8080\<rparr>, True), [''svc'' \<mapsto> 1])"
    by (simp add: getNextEndpoint_step counter_def sampleState_def)
  have f: "fst (withDefaults media (Some 0) (sampleState h)) = Some 0"
    by (simp add: withDefaults_Some)
  have n: "NewRequestWithContext sampleRuntime method url = Inr (method, url)" for url
    by (simp add: sampleRuntime_def)
  have d: "httpClient ?c req = Inr resp" for req
    by (simp add: sampleClient_def)
  have "fst (Request sampleRuntime ?c ''svc'' method path body (Some 0) ?s) = Inr (Inr resp)"
    by (simp add: Request_selected [OF a b] Let_def n d)
  then show ?thesis
    by (simp only: innerRequest_def f)
qed

lemma Request_decoders [simp]:
  "Request (rt\<lparr>jsonDecode := dec\<rparr>) c serviceName method path body headers s =
   Request rt c serviceName method path body headers s"
  "Request (rt\<lparr>xmlDecode := dec\<rparr>) c serviceName method path body headers s =
   Request rt c serviceName method path body headers s"
proof -
  have j: "NewRequestWithContext (rt\<lparr>jsonDecode := dec\<rparr>) = NewRequestWithContext rt"
    "rangeKeys (rt\<lparr>jsonDecode := dec\<rparr>) = rangeKeys rt"
    by simp_all
  have x: "NewRequestWithContext (rt\<lparr>xmlDecode := dec\<rparr>) = NewRequestWithContext rt"
    "rangeKeys (rt\<lparr>xmlDecode := dec\<rparr>) = rangeKeys rt"
    by simp_all
  show "Request (rt\<lparr>jsonDecode := dec\<rparr>) c serviceName method path body headers s =
        Request rt c serviceName method path body headers s"
    unfolding Request_def j ..
  show "Request (rt\<lparr>xmlDecode := dec\<rparr>) c serviceName method path body headers s =
        Request rt c serviceName method path body headers s"
    unfolding Request_def x ..
qed

lemma innerRequest_decoders [simp]:
  "innerRequest media (rt\<lparr>jsonDecode := dec\<rparr>) c serviceName method path body headers0 s0 =
   innerRequest media rt c serviceName method path body headers0 s0"
  "innerRequest media (rt\<lparr>xmlDecode := dec\<rparr>) c serviceName method path body headers0 s0 =
   innerRequest media rt c serviceName method path body headers0 s0"
  by (simp_all add: innerRequest_def)

text \<open>
  C3 (amended). When the response of a \<^verbatim>\<open>JsonRequest\<close> or of an \<^verbatim>\<open>XmlRequest\<close> has a
  status outside \<open>[200, 300)\<close>, the call fails with a status error that carries the
  status code and, when the body was read to its end without a read error, the text of
  the body as it is; when reading the body fails, the text is
  \<open>failed to read response body:\<close> followed by the read error. The decoder plays no part
  and the caller's target is left alone.
\<close>

theorem status_error_code_and_text:
  "(fst (innerRequest MediaJson rt c serviceName httpMethod path body headers0 s0) = Inr (Inr resp)
      \<and> (StatusCode resp < 200 \<or> 300 \<le> StatusCode resp) \<longrightarrow>
      fst (JsonRequest rt c serviceName httpMethod path body headers0 respObj s0) =
        Inr (Some (HttpStatusError (StatusCode resp)
                     (case failure (Body resp) of
                        None \<Rightarrow> content (Body resp)
                      | Some readErr \<Rightarrow> ''failed to read response body: '' @ readErr)),
             respObj)
      \<and> fst (JsonRequest (rt\<lparr>jsonDecode := dec\<rparr>) c serviceName httpMethod path body headers0 respObj s0) =
        fst (JsonRequest rt c serviceName httpMethod path body headers0 respObj s0))
   \<and> (fst (innerRequest MediaXml rt c serviceName httpMethod path body headers0 s0) = Inr (Inr resp')
      \<and> (StatusCode resp' < 200 \<or> 300 \<le> StatusCode resp') \<longrightarrow>
      fst (XmlRequest rt c serviceName httpMethod path body headers0 respObj s0) =
        Inr (Some (HttpStatusError (StatusCode resp')
                     (case failure (Body resp') of
                        None \<Rightarrow> content (Body resp')
                      | Some readErr \<Rightarrow> ''failed to read response body: '' @ readErr)),
             respObj)
      \<and> fst (XmlRequest (rt\<lparr>xmlDecode := dec\<rparr>) c serviceName httpMethod path body headers0 respObj s0) =
        fst (XmlRequest rt c serviceName httpMethod path body headers0 respObj s0))"
proof -
  have j: "fst (JsonRequest rt c serviceName httpMethod path body headers0 respObj s0) =
        Inr (Some (HttpStatusError (StatusCode resp)
                     (case failure (Body resp) of
                        None \<Rightarrow> content (Body resp)
                      | Some readErr \<Rightarrow> ''failed to read response body: '' @ readErr)),
             respObj)
      \<and> fst (JsonRequest (rt\<lparr>jsonDecode := dec\<rparr>) c serviceName httpMethod path body headers0 respObj s0) =
        fst (JsonRequest rt c serviceName httpMethod path body headers0 respObj s0)"
    if r: "fst (innerRequest MediaJson rt c serviceName httpMethod path body headers0 s0) = Inr (Inr resp)"
      and st: "StatusCode resp < 200 \<or> 300 \<le> StatusCode resp"
  proof -
    have a: "fst (codecRequest MediaJson d ''JSON'' rt c serviceName httpMethod path body headers0 respObj s0) =
           Inr (Some (HttpStatusError (StatusCode resp)
                        (case failure (Body resp) of
                           None \<Rightarrow> content (Body resp)
                         | Some readErr \<Rightarrow> ''failed to read response body: '' @ readErr)),
                respObj)" for d :: "ResponseBody \<Rightarrow> 'b \<Rightarrow> 'b Decoded"
      using r st by (rule codecRequest_status_error)
    have b: "fst (codecRequest MediaJson dec ''JSON'' (rt\<lparr>jsonDecode := dec\<rparr>) c serviceName httpMethod path
                body headers0 respObj s0) =
            fst (codecRequest MediaJson dec ''JSON'' rt c serviceName httpMethod path body headers0 respObj s0)"
      by (simp add: codecRequest_inner)
    show ?thesis
      by (simp add: JsonRequest_codec a b)
  qed
  have x: "fst (XmlRequest rt c serviceName httpMethod path body headers0 respObj s0) =
        Inr (Some (HttpStatusError (StatusCode resp')
                     (case failure (Body resp') of
                        None \<Rightarrow> content (Body resp')
                      | Some readErr \<Rightarrow> ''failed to read response body: '' @ readErr)),
             respObj)
      \<and> fst (XmlRequest (rt\<lparr>xmlDecode := dec\<rparr>) c serviceName httpMethod path body headers0 respObj s0) =
        fst (XmlRequest rt c serviceName httpMethod path body headers0 respObj s0)"
    if r: "fst (innerRequest MediaXml rt c serviceName httpMethod path body headers0 s0) = Inr (Inr resp')"
      and st: "StatusCode resp' < 200 \<or> 300 \<le> StatusCode resp'"
  proof -
    have a: "fst (codecRequest MediaXml d ''XML'' rt c serviceName httpMethod path body headers0 respObj s0) =
           Inr (Some (HttpStatusError (StatusCode resp')
                        (case failure (Body resp') of
                           None \<Rightarrow> content (Body resp')
                         | Some readErr \<Rightarrow> ''failed to read response body: '' @ readErr)),
                respObj)" for d :: "ResponseBody \<Rightarrow> 'b \<Rightarrow> 'b Decoded"
      using r st by (rule codecRequest_status_error)
    have b: "fst (codecRequest MediaXml dec ''XML'' (rt\<lparr>xmlDecode := dec\<rparr>) c serviceName httpMethod path
                body headers0 respObj s0) =
            fst (codecRequest MediaXml dec ''XML'' rt c serviceName httpMethod path body headers0 respObj s0)"
      by (simp add: codecRequest_inner)
    show ?thesis
      by (simp add: XmlRequest_codec a b)
  qed
  from j x show ?thesis by blast
qed

text \<open>
  A response 404 with the body \<open>not found\<close> gives a status error with both, to a
  \<^verbatim>\<open>JsonRequest\<close> and to an \<^verbatim>\<open>XmlRequest\<close>.
\<close>

theorem status_error_code_and_text_witness:
  "fst (innerRequest MediaJson sampleRuntime
          (sampleClient None \<lparr>StatusCode = 404, Body = \<lparr>content = ''not found'', failure = None\<rparr>\<rparr>)
          ''svc'' ''GET'' ''/x'' [] (Some 0) (sampleState Map.empty))
     = Inr (Inr \<lparr>StatusCode = 404, Body = \<lparr>content = ''not found'', failure = None\<rparr>\<rparr>)
   \<and> fst (innerRequest MediaXml sampleRuntime
          (sampleClient None \<lparr>StatusCode = 404, Body = \<lparr>content = ''not found'', failure = None\<rparr>\<rparr>)
          ''svc'' ''GET'' ''/x'' [] (Some 0) (sampleState Map.empty))
     = Inr (Inr \<lparr>StatusCode = 404, Body = \<lparr>content = ''not found'', failure = None\<rparr>\<rparr>)
   \<and> ((404::int) < 200 \<or> (300::int) \<le> 404)
   \<and> fst (JsonRequest sampleRuntime
          (sampleClient None \<lparr>StatusCode = 404, Body = \<lparr>content = ''not found'', failure = None\<rparr>\<rparr>)
          ''svc'' ''GET'' ''/x'' [] (Some 0) (Some ''old'') (sampleState Map.empty))
     = Inr (Some (HttpStatusError 404 ''not found''), Some ''old'')
   \<and> fst (XmlRequest sampleRuntime
          (sampleClient None \<lparr>StatusCode = 404, Body = \<lparr>content = ''not found'', failure = None\<rparr>\<rparr>)
          ''svc'' ''GET'' ''/x'' [] (Some 0) (Some ''old'') (sampleState Map.empty))
     = Inr (Some (HttpStatusError 404 ''not found''), Some ''old'')"
proof -
  let ?resp = "\<lparr>StatusCode = 404, Body = \<lparr>content = ''not found'', failure = None\<rparr>\<rparr>"
  let ?c = "sampleClient None ?resp"
  have a: "fst (innerRequest MediaJson sampleRuntime ?c ''svc'' ''GET'' ''/x'' [] (Some 0)
                 (sampleState Map.empty)) = Inr (Inr ?resp)"
    by (rule sample_innerRequest)
  have b: "fst (innerRequest MediaXml sampleRuntime ?c ''svc'' ''GET'' ''/x'' [] (Some 0)
                 (sampleState Map.empty)) = Inr (Inr ?resp)"
    by (rule sample_innerRequest)
  have s: "StatusCode ?resp < 200 \<or> 300 \<le> StatusCode ?resp" by simp
  note w = status_error_code_and_text [where rt = sampleRuntime and c = ?c
      and serviceName = "''svc''" and httpMethod = "''GET''" and path = "''/x''" and body = "[]"
      and ?headers0.0 = "Some 0"
      and ?s0.0 = "sampleState Map.empty" and resp = ?resp and resp' = ?resp
      and respObj = "Some ''old''"]
  from w a s have 1: "fst (JsonRequest sampleRuntime ?c ''svc'' ''GET'' ''/x'' [] (Some 0) (Some ''old'')
      (sampleState Map.empty)) = Inr (Some (HttpStatusError 404 ''not found''), Some ''old'')"
    by simp
  from w b s have 2: "fst (XmlRequest sampleRuntime ?c ''svc'' ''GET'' ''/x'' [] (Some 0) (Some ''old'')
      (sampleState Map.empty)) = Inr (Some (HttpStatusError 404 ''not found''), Some ''old'')"
    by simp
  from a b 1 2 show ?thesis by simp
qed

text \<open>
  C3 as stated fails when the body cannot be read to its end: for a response 500 whose
  body breaks off after \<open>par\<close>, the text of the status error is the message about the
  read error, not what the body held.
\<close>

theorem status_error_read_failure_counterexample:
  "fst (JsonRequest sampleRuntime
          (sampleClient None
             \<lparr>StatusCode = 500, Body = \<lparr>content = ''par'', failure = Some ''unexpected EOF''\<rparr>\<rparr>)
          ''svc'' ''GET'' ''/x'' [] (Some 0) None (sampleState Map.empty))
     = Inr (Some (HttpStatusError 500 ''failed to read response body: unexpected EOF''), None)
   \<and> fst (JsonRequest sampleRuntime
          (sampleClient None
             \<lparr>StatusCode = 500, Body = \<lparr>content = ''par'', failure = Some ''unexpected EOF''\<rparr>\<rparr>)
          ''svc'' ''GET'' ''/x'' [] (Some 0) None (sampleState Map.empty))
     \<noteq> Inr (Some (HttpStatusError 500 ''par''), None)"
proof -
  let ?resp = "\<lparr>StatusCode = 500, Body = \<lparr>content = ''par'', failure = Some ''unexpected EOF''\<rparr>\<rparr>"
  have s: "StatusCode ?resp < 200 \<or> 300 \<le> StatusCode ?resp" by simp
  have "fst (codecRequest MediaJson sampleDecode ''JSON'' sampleRuntime (sampleClient None ?resp)
               ''svc'' ''GET'' ''/x'' [] (Some 0) None (sampleState Map.empty)) =
     Inr (Some (HttpStatusError (StatusCode ?resp)
                  (case failure (Body ?resp) of
                     None \<Rightarrow> content (Body ?resp)
                   | Some readErr \<Rightarrow> ''failed to read response body: '' @ readErr)),
          None)"
    using sample_innerRequest s by (rule codecRequest_status_error)
  then show ?thesis
    by (simp add: JsonRequest_codec sampleRuntime_def)
qed

text \<open>
  C5 (amended). Once a \<^verbatim>\<open>JsonRequest\<close> or an \<^verbatim>\<open>XmlRequest\<close> has received a response,
  the body is closed before the call returns, in every branch. It is read to its end when
  the status is outside \<open>[200, 300)\<close>; with a status inside and an output target it is
  read as far as the decoder reads; with a status inside and no output target it is not
  read.
\<close>

theorem response_body_read_and_closed:
  "(fst (innerRequest MediaJson rt c serviceName httpMethod path body headers0 s0) = Inr (Inr resp) \<longrightarrow>
      bodyReads (eventsSince s0 (snd (JsonRequest rt c serviceName httpMethod path body headers0 respObj s0)))
        = (if 200 \<le> StatusCode resp \<and> StatusCode resp < 300 then
             (case respObj of
                None \<Rightarrow> []
              | Some t \<Rightarrow> [(bytesRead (jsonDecode rt (Body resp) t),
                            reachedEnd (jsonDecode rt (Body resp) t))])
           else [(length (content (Body resp)), True)])
      \<and> last (trace (snd (JsonRequest rt c serviceName httpMethod path body headers0 respObj s0)))
        = EvBodyClose)
   \<and> (fst (innerRequest MediaXml rt c serviceName httpMethod path body headers0 s0) = Inr (Inr resp') \<longrightarrow>
      bodyReads (eventsSince s0 (snd (XmlRequest rt c serviceName httpMethod path body headers0 respObj s0)))
        = (if 200 \<le> StatusCode resp' \<and> StatusCode resp' < 300 then
             (case respObj of
                None \<Rightarrow> []
              | Some t \<Rightarrow> [(bytesRead (xmlDecode rt (Body resp') t),
                            reachedEnd (xmlDecode rt (Body resp') t))])
           else [(length (content (Body resp')), True)])
      \<and> last (trace (snd (XmlRequest rt c serviceName httpMethod path body headers0 respObj s0)))
        = EvBodyClose)"
proof -
  have j: "bodyReads (eventsSince s0 (snd (JsonRequest rt c serviceName httpMethod path body headers0 respObj s0)))
        = (if 200 \<le> StatusCode resp \<and> StatusCode resp < 300 then
             (case respObj of
                None \<Rightarrow> []
              | Some t \<Rightarrow> [(bytesRead (jsonDecode rt (Body resp) t),
                            reachedEnd (jsonDecode rt (Body resp) t))])
           else [(length (content (Body resp)), True)])
      \<and> last (trace (snd (JsonRequest rt c serviceName httpMethod path body headers0 respObj s0)))
        = EvBodyClose"
    if r: "fst (innerRequest MediaJson rt c serviceName httpMethod path body headers0 s0) = Inr (Inr resp)"
    using codecRequest_reads [OF r, of "jsonDecode rt" "''JSON''" respObj]
    by (simp add: JsonRequest_codec readsFor_def)
  have x: "bodyReads (eventsSince s0 (snd (XmlRequest rt c serviceName httpMethod path body headers0 respObj s0)))
        = (if 200 \<le> StatusCode resp' \<and> StatusCode resp' < 300 then
             (case respObj of
                None \<Rightarrow> []
              | Some t \<Rightarrow> [(bytesRead (xmlDecode rt (Body resp') t),
                            reachedEnd (xmlDecode rt (Body resp') t))])
           else [(length (content (Body resp')), True)])
      \<and> last (trace (snd (XmlRequest rt c serviceName httpMethod path body headers0 respObj s0)))
        = EvBodyClose"
    if r: "fst (innerRequest MediaXml rt c serviceName httpMethod path body headers0 s0) = Inr (Inr resp')"
    using codecRequest_reads [OF r, of "xmlDecode rt" "''XML''" respObj]
    by (simp add: XmlRequest_codec readsFor_def)
  from j x show ?thesis by blast
qed

text \<open>A response 503 is read to the end of its nine bytes, and the body is closed.\<close>

theorem response_body_read_and_closed_witness:
  "fst (innerRequest MediaJson sampleRuntime
          (sampleClient None \<lparr>StatusCode = 503, Body = \<lparr>content = ''try later'', failure = None\<rparr>\<rparr>)
          ''svc'' ''GET'' ''/x'' [] (Some 0) (sampleState Map.empty))
     = Inr (Inr \<lparr>StatusCode = 503, Body = \<lparr>content = ''try later'', failure = None\<rparr>\<rparr>)
   \<and> fst (innerRequest MediaXml sampleRuntime
          (sampleClient None \<lparr>StatusCode = 503, Body = \<lparr>content = ''try later'', failure = None\<rparr>\<rparr>)
          ''svc'' ''GET'' ''/x'' [] (Some 0) (sampleState Map.empty))
     = Inr (Inr \<lparr>StatusCode = 503, Body = \<lparr>content = ''try later'', failure = None\<rparr>\<rparr>)
   \<and> bodyReads (eventsSince (sampleState Map.empty)
        (snd (JsonRequest sampleRuntime
          (sampleClient None \<lparr>StatusCode = 503, Body = \<lparr>content = ''try later'', failure = None\<rparr>\<rparr>)
          ''svc'' ''GET'' ''/x'' [] (Some 0) None (sampleState Map.empty))))
     = [(9, True)]
   \<and> last (trace
        (snd (XmlRequest sampleRuntime
          (sampleClient None \<lparr>StatusCode = 503, Body = \<lparr>content = ''try later'', failure = None\<rparr>\<rparr>)
          ''svc'' ''GET'' ''/x'' [] (Some 0) None (sampleState Map.empty))))
     = EvBodyClose"
proof -
  let ?resp = "\<lparr>StatusCode = 503, Body = \<lparr>content = ''try later'', failure = None\<rparr>\<rparr>"
  let ?c = "sampleClient None ?resp"
  have a: "fst (innerRequest MediaJson sampleRuntime ?c ''svc'' ''GET'' ''/x'' [] (Some 0)
                 (sampleState Map.empty)) = Inr (Inr ?resp)"
    by (rule sample_innerRequest)
  have b: "fst (innerRequest MediaXml sampleRuntime ?c ''svc'' ''GET'' ''/x'' [] (Some 0)
                 (sampleState Map.empty)) = Inr (Inr ?resp)"
    by (rule sample_innerRequest)
  note w = response_body_read_and_closed [where rt = sampleRuntime and c = ?c
      and serviceName = "''svc''" and httpMethod = "''GET''" and path = "''/x''" and body = "[]"
      and ?headers0.0 = "Some 0"
      and ?s0.0 = "sampleState Map.empty" and resp = ?resp and resp' = ?resp and respObj = None]
  from w a have 1: "bodyReads (eventsSince (sampleState Map.empty)
        (snd (JsonRequest sampleRuntime ?c ''svc'' ''GET'' ''/x'' [] (Some 0) None (sampleState Map.empty))))
     = [(9, True)]"
    by simp
  from w b have 2: "last (trace
        (snd (XmlRequest sampleRuntime ?c ''svc'' ''GET'' ''/x'' [] (Some 0) None (sampleState Map.empty))))
     = EvBodyClose"
    by simp
  from a b 1 2 show ?thesis by simp
qed

text \<open>
  C5 as stated fails in the success branch without an output target: for a response 200
  with the body \<open>ok\<close> and a nil \<^verbatim>\<open>respObj\<close> the call returns without a single read of
  the body.
\<close>

theorem response_body_not_drained_counterexample:
  "\<not> drained (eventsSince (sampleState Map.empty)
        (snd (JsonRequest sampleRuntime
          (sampleClient None \<lparr>StatusCode = 200, Body = \<lparr>content = ''ok'', failure = None\<rparr>\<rparr>)
          ''svc'' ''GET'' ''/x'' [] (Some 0) None (sampleState Map.empty))))"
proof -
  let ?resp = "\<lparr>StatusCode = 200, Body = \<lparr>content = ''ok'', failure = None\<rparr>\<rparr>"
  have "bodyReads (eventsSince (sampleState Map.empty)
          (snd (codecRequest MediaJson sampleDecode ''JSON'' sampleRuntime (sampleClient None ?resp)
                  ''svc'' ''GET'' ''/x'' [] (Some 0) None (sampleState Map.empty))))
        = readsFor sampleDecode ?resp None"
    using codecRequest_reads [OF sample_innerRequest] by blast
  then show ?thesis
    by (simp add: JsonRequest_codec drained_bodyReads readsFor_def sampleRuntime_def)
qed

subsection \<open>Headers\<close>

lemma valuesOf_upd: "valuesOf (h(k \<mapsto> vs)) k' = (if k' = k then vs else valuesOf h k')"
  by (simp add: valuesOf_def)

lemma addValues_eq:
  "addValues key vs h =
     (if vs = [] then h
      else h(CanonicalMIMEHeaderKey key \<mapsto> valuesOf h (CanonicalMIMEHeaderKey key) @ vs))"
proof (induction vs arbitrary: h)
  case Nil
  then show ?case by simp
next
  case (Cons v vs)
  let ?K = "CanonicalMIMEHeaderKey key"
  let ?h' = "h(?K \<mapsto> valuesOf h ?K @ [v])"
  have "addValues key (v # vs) h = addValues key vs ?h'"
    by (simp add: Header_Add_def valuesOf_def)
  also have "\<dots> = (if vs = [] then ?h' else ?h'(?K \<mapsto> valuesOf ?h' ?K @ vs))"
    by (rule Cons.IH)
  also have "\<dots> = h(?K \<mapsto> valuesOf h ?K @ v # vs)"
    by (simp add: valuesOf_upd)
  finally show ?case by simp
qed

lemma copyHeaders_other:
  "\<forall>k\<in>set keys. CanonicalMIMEHeaderKey k \<noteq> K \<Longrightarrow> copyHeaders hs keys h K = h K"
  by (induction keys arbitrary: h) (auto simp: addValues_eq)

text \<open>
  A header with a sole spelling among the keys arrives in the request with the values the
  map has for it, in their order.
\<close>

lemma copyHeaders_sole:
  assumes "distinct keys" and "K \<in> set keys"
    and "\<forall>k\<in>set keys. CanonicalMIMEHeaderKey k = K \<longrightarrow> k = K"
    and "CanonicalMIMEHeaderKey K = K"
  shows "copyHeaders hs keys h K =
           (if valuesOf hs K = [] then h K else Some (valuesOf h K @ valuesOf hs K))"
  using assms(1-3)
proof (induction keys arbitrary: h)
  case Nil
  then show ?case by simp
next
  case (Cons key keys)
  show ?case
  proof (cases "key = K")
    case True
    with Cons.prems have "\<forall>k\<in>set keys. CanonicalMIMEHeaderKey k \<noteq> K"
      by auto
    then show ?thesis
      using True assms(4) by (simp add: copyHeaders_other addValues_eq)
  next
    case False
    with Cons.prems have ne: "CanonicalMIMEHeaderKey key \<noteq> K" and K: "K \<in> set keys"
      and d: "distinct keys"
      and sole: "\<forall>k\<in>set keys. CanonicalMIMEHeaderKey k = K \<longrightarrow> k = K"
      by auto
    have same: "addValues key (valuesOf hs key) h K = h K"
      using ne by (simp add: addValues_eq)
    then have "valuesOf (addValues key (valuesOf hs key) h) K = valuesOf h K"
      by (simp add: valuesOf_def)
    with Cons.IH [OF d K sole, of "addValues key (valuesOf hs key) h"] same
    show ?thesis by simp
  qed
qed

lemma Request_requests:
  "list_all (\<lambda>req. reqHeader req =
                (case headers of
                   None \<Rightarrow> Map.empty
                 | Some a \<Rightarrow> copyHeaders (maps s a) (rangeKeys rt (maps s a)) Map.empty))
     (requestsOf (eventsSince s (snd (Request rt c serviceName method path body headers s))))"
  by (simp add: Request_def Let_def eventsSince_def split: sum.split option.split prod.split)

lemma codecRequest_maps:
  "maps (snd (codecRequest media dec label rt c serviceName method path body headers0 respObj s0)) =
     maps (snd (withDefaults media headers0 s0))
   \<and> nextMap (snd (codecRequest media dec label rt c serviceName method path body headers0 respObj s0)) =
     nextMap (snd (withDefaults media headers0 s0))"
proof -
  let ?w = "withDefaults media headers0 s0"
  let ?i = "innerRequest media rt c serviceName method path body headers0 s0"
  have i: "maps (snd ?i) = maps (snd ?w) \<and> nextMap (snd ?i) = nextMap (snd ?w)"
    unfolding innerRequest_def by (rule Request_frame)
  obtain r s4 where e: "?i = (r, s4)" by (cases ?i)
  with i have s4: "maps s4 = maps (snd ?w)" "nextMap s4 = nextMap (snd ?w)" by simp_all
  show ?thesis
    by (simp add: codecRequest_inner e s4 classify_state split: sum.split)
qed

lemma codecRequest_requests:
  "requestsOf (eventsSince s0
      (snd (codecRequest media dec label rt c serviceName method path body headers0 respObj s0))) =
   requestsOf (eventsSince (snd (withDefaults media headers0 s0))
      (snd (innerRequest media rt c serviceName method path body headers0 s0)))"
proof -
  let ?w = "withDefaults media headers0 s0"
  let ?i = "innerRequest media rt c serviceName method path body headers0 s0"
  obtain evs where tr: "trace (snd ?i) = trace s0 @ evs"
    using innerRequest_trace by blast
  obtain r s4 where e: "?i = (r, s4)" by (cases ?i)
  with tr have s4: "trace s4 = trace s0 @ evs" by simp
  have m: "requestsOf (map (\<lambda>(n, fin). EvBodyRead n fin) rs) = []" for rs
    by (induction rs) auto
  have "eventsSince (snd ?w) (snd ?i) = evs"
    using tr by (simp add: eventsSince_def)
  moreover have "requestsOf (eventsSince s0
      (snd (codecRequest media dec label rt c serviceName method path body headers0 respObj s0))) =
      requestsOf evs"
    by (simp add: codecRequest_inner e s4 classify_state eventsSince_def m split: sum.split)
  ultimately show ?thesis by simp
qed

text \<open>What both functions leave in the caller's map, and what they send of it.\<close>

lemma codecRequest_caller_map:
  "maps (snd (codecRequest media dec label rt c serviceName method path body (Some a) respObj s)) =
     (maps s)(a := defaulted media (maps s a))
   \<and> nextMap (snd (codecRequest media dec label rt c serviceName method path body (Some a) respObj s)) =
     nextMap s"
  by (simp add: codecRequest_maps withDefaults_Some)

lemma codecRequest_sent_header:
  assumes "key = HeaderAccept \<or> key = HeaderContentType"
    and "enumerates rt (defaulted media (maps s a))"
    and "soleSpelling (rangeKeys rt (defaulted media (maps s a))) key"
    and "media \<noteq> []"
  shows "list_all (\<lambda>req. reqHeader req key = defaulted media (maps s a) key)
     (requestsOf (eventsSince s
        (snd (codecRequest media dec label rt c serviceName method path body (Some a) respObj s))))"
proof -
  let ?h = "defaulted media (maps s a)"
  let ?w = "withDefaults media (Some a) s"
  have w1: "fst ?w = Some a"
    by (simp add: withDefaults_Some)
  have w2: "maps (snd ?w) a = ?h"
    by (simp add: withDefaults_Some)
  have canon: "CanonicalMIMEHeaderKey key = key"
    using assms(1) canonical_Accept canonical_ContentType by metis
  have fv: "firstValue ?h key \<noteq> []"
    using assms(1,4) by (simp add: firstValue_defaulted)
  obtain v vs where some: "?h key = Some (v # vs)"
    using fv by (cases "?h key"; cases "the (?h key)") (simp_all add: firstValue_def)
  then have "key \<in> dom ?h" by blast
  with assms(2) have mem: "key \<in> set (rangeKeys rt ?h)" and d: "distinct (rangeKeys rt ?h)"
    by (simp_all add: enumerates_def)
  from assms(3) have sole: "\<forall>k\<in>set (rangeKeys rt ?h). CanonicalMIMEHeaderKey k = key \<longrightarrow> k = key"
    by (simp add: soleSpelling_def list_all_iff)
  have vo: "valuesOf ?h key = v # vs"
    by (simp only: valuesOf_def some option.case)
  have "copyHeaders ?h (rangeKeys rt ?h) Map.empty key =
      (if valuesOf ?h key = [] then Map.empty key
       else Some (valuesOf Map.empty key @ valuesOf ?h key))"
    using d mem sole canon by (rule copyHeaders_sole)
  then have ch: "copyHeaders ?h (rangeKeys rt ?h) Map.empty key = ?h key"
    by (simp only: vo some) (simp add: valuesOf_def)
  have "list_all (\<lambda>req. reqHeader req =
                (case fst ?w of
                   None \<Rightarrow> Map.empty
                 | Some a \<Rightarrow> copyHeaders (maps (snd ?w) a) (rangeKeys rt (maps (snd ?w) a)) Map.empty))
     (requestsOf (eventsSince (snd ?w)
        (snd (Request rt c serviceName method path body (fst ?w) (snd ?w)))))"
    by (rule Request_requests)
  then have "list_all (\<lambda>req. reqHeader req = copyHeaders ?h (rangeKeys rt ?h) Map.empty)
     (requestsOf (eventsSince (snd ?w)
        (snd (innerRequest media rt c serviceName method path body (Some a) s))))"
    by (simp only: innerRequest_def w1 w2 option.case)
  then have "list_all (\<lambda>req. reqHeader req key = ?h key)
     (requestsOf (eventsSince (snd ?w)
        (snd (innerRequest media rt c serviceName method path body (Some a) s))))"
    using ch by (simp add: list_all_iff)
  then show ?thesis
    by (simp only: codecRequest_requests)
qed

lemma defaulted_at_header:
  assumes "key = HeaderAccept \<or> key = HeaderContentType"
  shows "defaulted media (maps s a) key =
           (if MIMEHeader_Get s (Some a) key = [] then Some [media] else maps s a key)"
proof -
  have "CanonicalMIMEHeaderKey key = key"
    using assms canonical_Accept canonical_ContentType by metis
  then show ?thesis
    using assms by (simp add: defaulted_def MIMEHeader_Get_firstValue)
qed

lemma defaulted_elsewhere:
  "key \<noteq> HeaderAccept \<Longrightarrow> key \<noteq> HeaderContentType \<Longrightarrow> defaulted media h key = h key"
  by (simp add: defaulted_def)

lemma defaulted_absent:
  "key = HeaderAccept \<or> key = HeaderContentType \<Longrightarrow> h key = None \<Longrightarrow>
   defaulted media h key = Some [media]"
  by (simp add: defaulted_def firstValue_def)

lemma media_not_empty [simp]: "MediaJson \<noteq> []" "MediaXml \<noteq> []"
  by (simp_all add: MediaJson_def MediaXml_def)

text \<open>The keys that the examples use are visited in a fixed order, each in its sole spelling.\<close>

lemma sample_enumerates:
  assumes "dom h \<subseteq> {''Accept'', ''Content-Type'', ''X-Trace''}"
  shows "enumerates sampleRuntime h"
proof -
  have "set (filter (\<lambda>k. h k \<noteq> None) [''Accept'', ''Content-Type'', ''X-Trace'']) = dom h"
    using assms by (auto simp: dom_def)
  moreover have "distinct (filter (\<lambda>k. h k \<noteq> None) [''Accept'', ''Content-Type'', ''X-Trace''])"
    by (rule distinct_filter) simp
  ultimately show ?thesis
    by (simp add: enumerates_def sampleRuntime_def)
qed

lemma sample_soleSpelling: "soleSpelling (rangeKeys sampleRuntime h) K"
proof -
  have c: "CanonicalMIMEHeaderKey ''X-Trace'' = ''X-Trace''"
    by (simp add: canonical_defs)
  have a: "CanonicalMIMEHeaderKey ''Accept'' = ''Accept''"
    using canonical_Accept by (simp add: HeaderAccept_def)
  have b: "CanonicalMIMEHeaderKey ''Content-Type'' = ''Content-Type''"
    using canonical_ContentType by (simp add: HeaderContentType_def)
  have "list_all (\<lambda>k. CanonicalMIMEHeaderKey k = K \<longrightarrow> k = K)
          [''Accept'', ''Content-Type'', ''X-Trace'']"
    by (simp add: a b c)
  then have "list_all (\<lambda>k. CanonicalMIMEHeaderKey k = K \<longrightarrow> k = K)
          (filter (\<lambda>k. h k \<noteq> None) [''Accept'', ''Content-Type'', ''X-Trace''])"
    by (simp only: list_all_iff) auto
  then show ?thesis
    by (simp add: soleSpelling_def sampleRuntime_def)
qed

lemma dom_defaulted: "dom (defaulted media h) \<subseteq> dom h \<union> {HeaderAccept, HeaderContentType}"
  by (auto simp: defaulted_def dom_def split: if_splits)

lemma sample_one_request:
  "length (requestsOf (eventsSince (sampleState h)
      (snd (codecRequest media dec label sampleRuntime (sampleClient tls resp) ''svc'' method path body
              (Some 0) respObj (sampleState h))))) = 1"
proof -
  let ?c = "sampleClient tls resp"
  let ?eps = "[Some \<lparr>Address = ''10.0.0.1'', Port = 8080\<rparr>, Some \<lparr>Address = ''10.0.0.2'', Port = 443\<rparr>]"
  let ?w = "withDefaults media (Some 0) (sampleState h)"
  have a: "discovery ?c ''svc'' = Inr ?eps" by (simp add: sampleClient_def)
  have b: "getNextEndpoint ''svc'' ?eps (rrIndices (snd ?w)) =
      (Inr (Some \<lparr>Address = ''10.0.0.1'', Port = 8080\<rparr>, True), [''svc'' \<mapsto> 1])"
    by (simp add: getNextEndpoint_step counter_def sampleState_def)
  have f: "fst ?w = Some 0"
    by (simp add: withDefaults_Some)
  have n: "NewRequestWithContext sampleRuntime method url = Inr (method, url)" for url
    by (simp add: sampleRuntime_def)
  have "length (requestsOf (eventsSince (snd ?w)
          (snd (Request sampleRuntime ?c ''svc'' method path body (Some 0) (snd ?w))))) = 1"
    by (simp add: Request_selected [OF a b] Let_def n eventsSince_def)
  then show ?thesis
    by (simp only: codecRequest_requests innerRequest_def f)
qed

lemma list_all_single: "length xs = 1 \<Longrightarrow> list_all (\<lambda>x. f x = v) xs \<Longrightarrow> map f xs = [v]"
  by (cases xs) simp_all

text \<open>
  C4 (amended). \<^verbatim>\<open>JsonRequest\<close> and \<^verbatim>\<open>XmlRequest\<close> set \<^verbatim>\<open>Accept\<close> and \<^verbatim>\<open>Content-Type\<close> to
  the media type of the codec exactly when \<^verbatim>\<open>Get\<close> returns the empty string for the
  header, that is when the caller's map has no entry under the canonical name or the
  first value of the entry is empty. Otherwise the caller's entry is kept as it is, and,
  when the map holds the header in no other spelling, it is what the request carries.
\<close>

theorem header_defaults_keep_caller_values:
  assumes "key = HeaderAccept \<or> key = HeaderContentType"
  shows "maps (snd (JsonRequest rt c serviceName method path body (Some a) respObj s)) a key =
           (if MIMEHeader_Get s (Some a) key = [] then Some [MediaJson] else maps s a key)
       \<and> maps (snd (XmlRequest rt c serviceName method path body (Some a) respObj s)) a key =
           (if MIMEHeader_Get s (Some a) key = [] then Some [MediaXml] else maps s a key)
       \<and> (enumerates rt (defaulted MediaJson (maps s a))
            \<and> soleSpelling (rangeKeys rt (defaulted MediaJson (maps s a))) key \<longrightarrow>
          list_all (\<lambda>req. reqHeader req key =
                      (if MIMEHeader_Get s (Some a) key = [] then Some [MediaJson] else maps s a key))
            (requestsOf (eventsSince s
               (snd (JsonRequest rt c serviceName method path body (Some a) respObj s)))))
       \<and> (enumerates rt (defaulted MediaXml (maps s a))
            \<and> soleSpelling (rangeKeys rt (defaulted MediaXml (maps s a))) key \<longrightarrow>
          list_all (\<lambda>req. reqHeader req key =
                      (if MIMEHeader_Get s (Some a) key = [] then Some [MediaXml] else maps s a key))
            (requestsOf (eventsSince s
               (snd (XmlRequest rt c serviceName method path body (Some a) respObj s)))))"
proof -
  have j: "maps (snd (JsonRequest rt c serviceName method path body (Some a) respObj s)) a key =
           (if MIMEHeader_Get s (Some a) key = [] then Some [MediaJson] else maps s a key)"
    by (simp add: JsonRequest_codec codecRequest_caller_map defaulted_at_header [OF assms])
  have x: "maps (snd (XmlRequest rt c serviceName method path body (Some a) respObj s)) a key =
           (if MIMEHeader_Get s (Some a) key = [] then Some [MediaXml] else maps s a key)"
    by (simp add: XmlRequest_codec codecRequest_caller_map defaulted_at_header [OF assms])
  have js: "list_all (\<lambda>req. reqHeader req key =
                      (if MIMEHeader_Get s (Some a) key = [] then Some [MediaJson] else maps s a key))
            (requestsOf (eventsSince s
               (snd (JsonRequest rt c serviceName method path body (Some a) respObj s))))"
    if "enumerates rt (defaulted MediaJson (maps s a))"
      and "soleSpelling (rangeKeys rt (defaulted MediaJson (maps s a))) key"
    using codecRequest_sent_header [OF assms that media_not_empty(1)]
    by (simp only: JsonRequest_codec defaulted_at_header [OF assms])
  have xs: "list_all (\<lambda>req. reqHeader req key =
                      (if MIMEHeader_Get s (Some a) key = [] then Some [MediaXml] else maps s a key))
            (requestsOf (eventsSince s
               (snd (XmlRequest rt c serviceName method path body (Some a) respObj s))))"
    if "enumerates rt (defaulted MediaXml (maps s a))"
      and "soleSpelling (rangeKeys rt (defaulted MediaXml (maps s a))) key"
    using codecRequest_sent_header [OF assms that media_not_empty(2)]
    by (simp only: XmlRequest_codec defaulted_at_header [OF assms])
  from j x js xs show ?thesis by blast
qed

text \<open>
  A \<^verbatim>\<open>Content-Type: application/json\<close> of the caller on an \<^verbatim>\<open>XmlRequest\<close> stays in the
  caller's map and is the \<^verbatim>\<open>Content-Type\<close> of the request.
\<close>

theorem header_defaults_keep_caller_values_witness:
  "(HeaderContentType = HeaderAccept \<or> HeaderContentType = HeaderContentType)
   \<and> enumerates sampleRuntime
        (defaulted MediaJson (maps (sampleState [''Content-Type'' \<mapsto> [''application/json'']]) 0))
   \<and> soleSpelling (rangeKeys sampleRuntime
        (defaulted MediaJson (maps (sampleState [''Content-Type'' \<mapsto> [''application/json'']]) 0)))
        HeaderContentType
   \<and> enumerates sampleRuntime
        (defaulted MediaXml (maps (sampleState [''Content-Type'' \<mapsto> [''application/json'']]) 0))
   \<and> soleSpelling (rangeKeys sampleRuntime
        (defaulted MediaXml (maps (sampleState [''Content-Type'' \<mapsto> [''application/json'']]) 0)))
        HeaderContentType
   \<and> maps (snd (XmlRequest sampleRuntime
        (sampleClient None \<lparr>StatusCode = 200, Body = \<lparr>content = [], failure = None\<rparr>\<rparr>)
        ''svc'' ''POST'' ''/x'' ''<a/>'' (Some 0) None
        (sampleState [''Content-Type'' \<mapsto> [''application/json'']]))) 0 ''Content-Type''
       = Some [''application/json'']
   \<and> map (\<lambda>req. reqHeader req ''Content-Type'')
        (requestsOf (eventsSince (sampleState [''Content-Type'' \<mapsto> [''application/json'']])
           (snd (XmlRequest sampleRuntime
              (sampleClient None \<lparr>StatusCode = 200, Body = \<lparr>content = [], failure = None\<rparr>\<rparr>)
              ''svc'' ''POST'' ''/x'' ''<a/>'' (Some 0) None
              (sampleState [''Content-Type'' \<mapsto> [''application/json'']])))))
       = [Some [''application/json'']]"
proof -
  let ?h = "[''Content-Type'' \<mapsto> [''application/json'']] :: MIMEHeader"
  let ?s = "sampleState ?h"
  let ?c = "sampleClient None \<lparr>StatusCode = 200, Body = \<lparr>content = [], failure = None\<rparr>\<rparr>"
  have k: "HeaderContentType = HeaderAccept \<or> HeaderContentType = HeaderContentType" by simp
  have m: "maps ?s 0 = ?h" by (simp add: sampleState_def)
  have d: "dom (defaulted media ?h) \<subseteq> {''Accept'', ''Content-Type'', ''X-Trace''}" for media
    using dom_defaulted [of media ?h] by (auto simp: HeaderAccept_def HeaderContentType_def)
  have e: "enumerates sampleRuntime (defaulted media (maps ?s 0))" for media
    by (simp only: m) (rule sample_enumerates [OF d])
  have g: "MIMEHeader_Get ?s (Some 0) HeaderContentType = ''application/json''"
    by (simp add: MIMEHeader_Get_firstValue firstValue_def m) (simp add: HeaderContentType_def)
  have v: "maps ?s 0 HeaderContentType = Some [''application/json'']"
    by (simp add: m HeaderContentType_def)
  note w = header_defaults_keep_caller_values [OF k, of sampleRuntime ?c "''svc''" "''POST''" "''/x''"
      "''<a/>''" 0 None ?s]
  from w have 1: "maps (snd (XmlRequest sampleRuntime ?c ''svc'' ''POST'' ''/x'' ''<a/>'' (Some 0) None ?s))
        0 HeaderContentType = Some [''application/json'']"
    by (simp only: g v) simp
  from w e sample_soleSpelling
  have "list_all (\<lambda>req. reqHeader req HeaderContentType =
                      (if MIMEHeader_Get ?s (Some 0) HeaderContentType = [] then Some [MediaXml]
                       else maps ?s 0 HeaderContentType))
            (requestsOf (eventsSince ?s
               (snd (XmlRequest sampleRuntime ?c ''svc'' ''POST'' ''/x'' ''<a/>'' (Some 0) None ?s))))"
    by blast
  then have "list_all (\<lambda>req. reqHeader req HeaderContentType = Some [''application/json''])
            (requestsOf (eventsSince ?s
               (snd (XmlRequest sampleRuntime ?c ''svc'' ''POST'' ''/x'' ''<a/>'' (Some 0) None ?s))))"
    by (simp only: g v) simp
  moreover have "length (requestsOf (eventsSince ?s
               (snd (XmlRequest sampleRuntime ?c ''svc'' ''POST'' ''/x'' ''<a/>'' (Some 0) None ?s)))) = 1"
    by (simp only: XmlRequest_codec sample_one_request)
  ultimately have 2: "map (\<lambda>req. reqHeader req HeaderContentType)
        (requestsOf (eventsSince ?s
           (snd (XmlRequest sampleRuntime ?c ''svc'' ''POST'' ''/x'' ''<a/>'' (Some 0) None ?s))))
       = [Some [''application/json'']]"
    by (rule list_all_single [rotated])
  from k e sample_soleSpelling 1 2 show ?thesis
    by (simp add: HeaderContentType_def)
qed

text \<open>
  C4 as stated fails for an entry whose first value is empty: a caller's
  \<^verbatim>\<open>Accept\<close> with the values \<open>""\<close> and \<open>text/html\<close> is replaced by the default.
\<close>

theorem header_default_overrides_counterexample:
  "maps (snd (JsonRequest sampleRuntime
        (sampleClient None \<lparr>StatusCode = 200, Body = \<lparr>content = [], failure = None\<rparr>\<rparr>)
        ''svc'' ''GET'' ''/x'' [] (Some 0) None
        (sampleState [''Accept'' \<mapsto> ['''', ''text/html'']]))) 0 ''Accept''
     = Some [''application/json'']
   \<and> maps (snd (JsonRequest sampleRuntime
        (sampleClient None \<lparr>StatusCode = 200, Body = \<lparr>content = [], failure = None\<rparr>\<rparr>)
        ''svc'' ''GET'' ''/x'' [] (Some 0) None
        (sampleState [''Accept'' \<mapsto> ['''', ''text/html'']]))) 0 ''Accept''
     \<noteq> Some ['''', ''text/html'']"
  by (simp add: JsonRequest_codec codecRequest_caller_map)
    (simp add: defaulted_def firstValue_def sampleState_def HeaderAccept_def MediaJson_def)

text \<open>
  C9 (amended). \<^verbatim>\<open>JsonRequest\<close> and \<^verbatim>\<open>XmlRequest\<close> write the defaults into the map the
  caller passed: after the call that map holds the media type of the codec as the only
  value of \<^verbatim>\<open>Accept\<close> and of \<^verbatim>\<open>Content-Type\<close> where \<^verbatim>\<open>Get\<close> returned the empty string
  for the header (no entry, or an entry whose first value is empty), every other entry
  is as it was, no other map has changed and no map has been created. The same holds for
  the \<^verbatim>\<open>Get\<close> and \<^verbatim>\<open>Delete\<close> functions of either codec, and for its \<^verbatim>\<open>Post\<close> and
  \<^verbatim>\<open>Put\<close> functions when the body serializes in that codec.
\<close>

theorem headers_mutated_in_place:
  "maps (snd (JsonRequest rt c serviceName httpMethod path body (Some a) respObj s)) b key =
     (if b = a \<and> (key = HeaderAccept \<or> key = HeaderContentType)
           \<and> MIMEHeader_Get s (Some a) key = []
      then Some [MediaJson] else maps s b key)
   \<and> nextMap (snd (JsonRequest rt c serviceName httpMethod path body (Some a) respObj s)) = nextMap s
   \<and> maps (snd (XmlRequest rt c serviceName httpMethod path body (Some a) respObj s)) b key =
     (if b = a \<and> (key = HeaderAccept \<or> key = HeaderContentType)
           \<and> MIMEHeader_Get s (Some a) key = []
      then Some [MediaXml] else maps s b key)
   \<and> nextMap (snd (XmlRequest rt c serviceName httpMethod path body (Some a) respObj s)) = nextMap s
   \<and> maps (snd (JsonGet rt c serviceName path (Some a) respObj s)) =
       maps (snd (JsonRequest rt c serviceName httpMethod path body (Some a) respObj s))
   \<and> maps (snd (JsonDelete rt c serviceName path (Some a) s)) =
       maps (snd (JsonRequest rt c serviceName httpMethod path body (Some a) respObj s))
   \<and> (jsonMarshal rt reqObj = Inr jsonBody \<longrightarrow>
        maps (snd (JsonPost rt c serviceName path reqObj (Some a) respObj s)) =
          maps (snd (JsonRequest rt c serviceName httpMethod path body (Some a) respObj s))
        \<and> maps (snd (JsonPut rt c serviceName path reqObj (Some a) respObj s)) =
          maps (snd (JsonRequest rt c serviceName httpMethod path body (Some a) respObj s)))
   \<and> maps (snd (XmlGet rt c serviceName path (Some a) respObj s)) =
       maps (snd (XmlRequest rt c serviceName httpMethod path body (Some a) respObj s))
   \<and> maps (snd (XmlDelete rt c serviceName path (Some a) s)) =
       maps (snd (XmlRequest rt c serviceName httpMethod path body (Some a) respObj s))
   \<and> (xmlMarshal rt reqObj = Inr xmlBody \<longrightarrow>
        maps (snd (XmlPost rt c serviceName path reqObj (Some a) respObj s)) =
          maps (snd (XmlRequest rt c serviceName httpMethod path body (Some a) respObj s))
        \<and> maps (snd (XmlPut rt c serviceName path reqObj (Some a) respObj s)) =
          maps (snd (XmlRequest rt c serviceName httpMethod path body (Some a) respObj s)))"
proof -
  have j: "maps (snd (JsonRequest rt c serviceName m path bd (Some a) ro s)) =
           (maps s)(a := defaulted MediaJson (maps s a))
         \<and> nextMap (snd (JsonRequest rt c serviceName m path bd (Some a) ro s)) = nextMap s"
    for m bd ro
    by (simp only: JsonRequest_codec codecRequest_caller_map)
  have x: "maps (snd (XmlRequest rt c serviceName m path bd (Some a) ro s)) =
           (maps s)(a := defaulted MediaXml (maps s a))
         \<and> nextMap (snd (XmlRequest rt c serviceName m path bd (Some a) ro s)) = nextMap s"
    for m bd ro
    by (simp only: XmlRequest_codec codecRequest_caller_map)
  have d: "((maps s)(a := defaulted media (maps s a))) b key =
     (if b = a \<and> (key = HeaderAccept \<or> key = HeaderContentType)
           \<and> MIMEHeader_Get s (Some a) key = []
      then Some [media] else maps s b key)" for media
  proof (cases "key = HeaderAccept \<or> key = HeaderContentType")
    case True
    then show ?thesis by (simp add: defaulted_at_header)
  next
    case False
    then show ?thesis by (simp add: defaulted_elsewhere)
  qed
  have wj: "maps (snd (JsonGet rt c serviceName path (Some a) respObj s)) =
             maps (snd (JsonRequest rt c serviceName httpMethod path body (Some a) respObj s))"
    "maps (snd (JsonDelete rt c serviceName path (Some a) s)) =
             maps (snd (JsonRequest rt c serviceName httpMethod path body (Some a) respObj s))"
    by (simp_all add: JsonGet_def JsonDelete_def j)
  have pj: "maps (snd (JsonPost rt c serviceName path reqObj (Some a) respObj s)) =
             maps (snd (JsonRequest rt c serviceName httpMethod path body (Some a) respObj s))
          \<and> maps (snd (JsonPut rt c serviceName path reqObj (Some a) respObj s)) =
             maps (snd (JsonRequest rt c serviceName httpMethod path body (Some a) respObj s))"
    if "jsonMarshal rt reqObj = Inr jsonBody"
    using that by (simp add: JsonPost_def JsonPut_def j)
  have wx: "maps (snd (XmlGet rt c serviceName path (Some a) respObj s)) =
             maps (snd (XmlRequest rt c serviceName httpMethod path body (Some a) respObj s))"
    "maps (snd (XmlDelete rt c serviceName path (Some a) s)) =
             maps (snd (XmlRequest rt c serviceName httpMethod path body (Some a) respObj s))"
    by (simp_all add: XmlGet_def XmlDelete_def x)
  have px: "maps (snd (XmlPost rt c serviceName path reqObj (Some a) respObj s)) =
             maps (snd (XmlRequest rt c serviceName httpMethod path body (Some a) respObj s))
          \<and> maps (snd (XmlPut rt c serviceName path reqObj (Some a) respObj s)) =
             maps (snd (XmlRequest rt c serviceName httpMethod path body (Some a) respObj s))"
    if "xmlMarshal rt reqObj = Inr xmlBody"
    using that by (simp add: XmlPost_def XmlPut_def x)
  have 1: "maps (snd (JsonRequest rt c serviceName httpMethod path body (Some a) respObj s)) b key =
     (if b = a \<and> (key = HeaderAccept \<or> key = HeaderContentType)
           \<and> MIMEHeader_Get s (Some a) key = []
      then Some [MediaJson] else maps s b key)"
    by (simp only: j d)
  have 2: "maps (snd (XmlRequest rt c serviceName httpMethod path body (Some a) respObj s)) b key =
     (if b = a \<and> (key = HeaderAccept \<or> key = HeaderContentType)
           \<and> MIMEHeader_Get s (Some a) key = []
      then Some [MediaXml] else maps s b key)"
    by (simp only: x d)
  from 1 2 j x wj pj wx px show ?thesis by blast
qed

text \<open>
  A caller's map with the single entry \<^verbatim>\<open>X-Trace\<close> comes back from a \<^verbatim>\<open>JsonPost\<close> with
  the two defaults of the JSON codec beside it; the object \<open>map\<close> serializes as JSON
  though not as XML.
\<close>

theorem headers_mutated_in_place_witness:
  "jsonMarshal sampleRuntime ''map'' = Inr ''map''
   \<and> xmlMarshal sampleRuntime ''nan'' = Inr ''nan''
   \<and> maps (snd (JsonPost sampleRuntime
        (sampleClient None \<lparr>StatusCode = 200, Body = \<lparr>content = [], failure = None\<rparr>\<rparr>)
        ''svc'' ''/x'' ''map'' (Some 0) None (sampleState [''X-Trace'' \<mapsto> [''1'']]))) 0 ''Accept''
       = Some [''application/json'']
   \<and> maps (snd (JsonPost sampleRuntime
        (sampleClient None \<lparr>StatusCode = 200, Body = \<lparr>content = [], failure = None\<rparr>\<rparr>)
        ''svc'' ''/x'' ''map'' (Some 0) None (sampleState [''X-Trace'' \<mapsto> [''1'']]))) 0 ''X-Trace''
       = Some [''1'']
   \<and> maps (snd (XmlPut sampleRuntime
        (sampleClient None \<lparr>StatusCode = 200, Body = \<lparr>content = [], failure = None\<rparr>\<rparr>)
        ''svc'' ''/x'' ''nan'' (Some 0) None (sampleState [''X-Trace'' \<mapsto> [''1'']]))) 0 ''Content-Type''
       = Some [''application/xml'']
   \<and> maps (snd (JsonPost sampleRuntime
        (sampleClient None \<lparr>StatusCode = 200, Body = \<lparr>content = [], failure = None\<rparr>\<rparr>)
        ''svc'' ''/x'' ''map'' (Some 0) None (sampleState [''X-Trace'' \<mapsto> [''1'']]))) 0
       \<noteq> maps (sampleState [''X-Trace'' \<mapsto> [''1'']]) 0"
proof -
  let ?h = "[''X-Trace'' \<mapsto> [''1'']] :: MIMEHeader"
  let ?s = "sampleState ?h"
  let ?c = "sampleClient None \<lparr>StatusCode = 200, Body = \<lparr>content = [], failure = None\<rparr>\<rparr>"
  let ?j = "snd (JsonPost sampleRuntime ?c ''svc'' ''/x'' ''map'' (Some 0) None ?s)"
  let ?x = "snd (XmlPut sampleRuntime ?c ''svc'' ''/x'' ''nan'' (Some 0) None ?s)"
  have m: "maps ?s 0 = ?h" by (simp add: sampleState_def)
  have mj: "jsonMarshal sampleRuntime ''map'' = Inr ''map''" by (simp add: sampleRuntime_def)
  have mx: "xmlMarshal sampleRuntime ''nan'' = Inr ''nan''" by (simp add: sampleRuntime_def)
  have ga: "MIMEHeader_Get ?s (Some 0) HeaderAccept = []"
    by (simp add: MIMEHeader_Get_firstValue firstValue_def m) (simp add: HeaderAccept_def)
  have gc: "MIMEHeader_Get ?s (Some 0) HeaderContentType = []"
    by (simp add: MIMEHeader_Get_firstValue firstValue_def m) (simp add: HeaderContentType_def)
  have kx: "''X-Trace'' \<noteq> HeaderAccept" "''X-Trace'' \<noteq> HeaderContentType"
    by (simp_all add: HeaderAccept_def HeaderContentType_def)
  note wa = headers_mutated_in_place [where rt = sampleRuntime and c = ?c and serviceName = "''svc''"
      and httpMethod = "''POST''" and path = "''/x''" and body = "''map''" and a = 0 and b = 0
      and key = HeaderAccept and respObj = None and s = ?s and reqObj = "''map''"
      and jsonBody = "''map''"]
  note wt = headers_mutated_in_place [where rt = sampleRuntime and c = ?c and serviceName = "''svc''"
      and httpMethod = "''POST''" and path = "''/x''" and body = "''map''" and a = 0 and b = 0
      and key = "''X-Trace''" and respObj = None and s = ?s and reqObj = "''map''"
      and jsonBody = "''map''"]
  note wc = headers_mutated_in_place [where rt = sampleRuntime and c = ?c and serviceName = "''svc''"
      and httpMethod = "''PUT''" and path = "''/x''" and body = "''nan''" and a = 0 and b = 0
      and key = HeaderContentType and respObj = None and s = ?s and reqObj = "''nan''"
      and xmlBody = "''nan''"]
  from wa mj have pj: "maps ?j =
      maps (snd (JsonRequest sampleRuntime ?c ''svc'' ''POST'' ''/x'' ''map'' (Some 0) None ?s))"
    by blast
  from wc mx have px: "maps ?x =
      maps (snd (XmlRequest sampleRuntime ?c ''svc'' ''PUT'' ''/x'' ''nan'' (Some 0) None ?s))"
    by blast
  from wa have "maps (snd (JsonRequest sampleRuntime ?c ''svc'' ''POST'' ''/x'' ''map'' (Some 0) None ?s))
      0 HeaderAccept =
     (if (0::nat) = 0 \<and> (HeaderAccept = HeaderAccept \<or> HeaderAccept = HeaderContentType)
           \<and> MIMEHeader_Get ?s (Some 0) HeaderAccept = []
      then Some [MediaJson] else maps ?s 0 HeaderAccept)"
    by blast
  with ga have "maps ?j 0 HeaderAccept = Some [MediaJson]"
    by (simp add: pj)
  then have 1: "maps ?j 0 ''Accept'' = Some [''application/json'']"
    by (simp add: HeaderAccept_def MediaJson_def)
  from wt have "maps (snd (JsonRequest sampleRuntime ?c ''svc'' ''POST'' ''/x'' ''map'' (Some 0) None ?s))
      0 ''X-Trace'' =
     (if (0::nat) = 0 \<and> (''X-Trace'' = HeaderAccept \<or> ''X-Trace'' = HeaderContentType)
           \<and> MIMEHeader_Get ?s (Some 0) ''X-Trace'' = []
      then Some [MediaJson] else maps ?s 0 ''X-Trace'')"
    by blast
  then have 2: "maps ?j 0 ''X-Trace'' = Some [''1'']"
    by (simp add: pj kx m)
  from wc have "maps (snd (XmlRequest sampleRuntime ?c ''svc'' ''PUT'' ''/x'' ''nan'' (Some 0) None ?s))
      0 HeaderContentType =
     (if (0::nat) = 0 \<and> (HeaderContentType = HeaderAccept \<or> HeaderContentType = HeaderContentType)
           \<and> MIMEHeader_Get ?s (Some 0) HeaderContentType = []
      then Some [MediaXml] else maps ?s 0 HeaderContentType)"
    by blast
  with gc have "maps ?x 0 HeaderContentType = Some [MediaXml]"
    by (simp add: px)
  then have 3: "maps ?x 0 ''Content-Type'' = Some [''application/xml'']"
    by (simp add: HeaderContentType_def MediaXml_def)
  have "maps ?s 0 ''Accept'' = None" by (simp add: m)
  with 1 have 4: "maps ?j 0 \<noteq> maps ?s 0"
    by (metis option.distinct(1))
  from mj mx 1 2 3 4 show ?thesis by blast
qed

text \<open>
  C9 as stated fails for an entry whose first value is empty: a caller's map with
  \<^verbatim>\<open>Accept\<close> of the values \<open>""\<close> and \<open>text/html\<close> lacks \<^verbatim>\<open>Content-Type\<close>, and an
  \<^verbatim>\<open>XmlRequest\<close> returns it with the default for \<^verbatim>\<open>Content-Type\<close> and with the caller's
  \<^verbatim>\<open>Accept\<close> entry replaced.
\<close>

theorem headers_entry_replaced_counterexample:
  "maps (sampleState [''Accept'' \<mapsto> ['''', ''text/html'']]) 0 ''Content-Type'' = None
   \<and> maps (snd (XmlRequest sampleRuntime
        (sampleClient None \<lparr>StatusCode = 200, Body = \<lparr>content = [], failure = None\<rparr>\<rparr>)
        ''svc'' ''GET'' ''/x'' [] (Some 0) None
        (sampleState [''Accept'' \<mapsto> ['''', ''text/html'']]))) 0 ''Content-Type''
     = Some [''application/xml'']
   \<and> maps (sampleState [''Accept'' \<mapsto> ['''', ''text/html'']]) 0 ''Accept''
     = Some ['''', ''text/html'']
   \<and> maps (snd (XmlRequest sampleRuntime
        (sampleClient None \<lparr>StatusCode = 200, Body = \<lparr>content = [], failure = None\<rparr>\<rparr>)
        ''svc'' ''GET'' ''/x'' [] (Some 0) None
        (sampleState [''Accept'' \<mapsto> ['''', ''text/html'']]))) 0 ''Accept''
     = Some [''application/xml'']"
  by (simp add: XmlRequest_codec codecRequest_caller_map)
    (simp add: defaulted_def firstValue_def sampleState_def HeaderAccept_def HeaderContentType_def
      MediaXml_def)

subsection \<open>A nil header map\<close>

lemma codecRequest_events:
  "\<exists>evs. trace (snd (innerRequest media rt c serviceName method path body headers0 s0)) = trace s0 @ evs
     \<and> eventsSince s0
          (snd (codecRequest media dec label rt c serviceName method path body headers0 respObj s0)) =
        (case fst (innerRequest media rt c serviceName method path body headers0 s0) of
           Inr (Inr resp) \<Rightarrow>
             evs @ map (\<lambda>(n, fin). EvBodyRead n fin) (readsFor dec resp respObj) @ [EvBodyClose]
         | _ \<Rightarrow> evs)
     \<and> rrIndices
          (snd (codecRequest media dec label rt c serviceName method path body headers0 respObj s0)) =
        rrIndices (snd (innerRequest media rt c serviceName method path body headers0 s0))"
proof -
  let ?i = "innerRequest media rt c serviceName method path body headers0 s0"
  obtain evs where tr: "trace (snd ?i) = trace s0 @ evs"
    using innerRequest_trace by blast
  obtain r s4 where e: "?i = (r, s4)" by (cases ?i)
  with tr have s4: "trace s4 = trace s0 @ evs" by simp
  have "eventsSince s0
          (snd (codecRequest media dec label rt c serviceName method path body headers0 respObj s0)) =
        (case r of
           Inr (Inr resp) \<Rightarrow>
             evs @ map (\<lambda>(n, fin). EvBodyRead n fin) (readsFor dec resp respObj) @ [EvBodyClose]
         | _ \<Rightarrow> evs)
     \<and> rrIndices
          (snd (codecRequest media dec label rt c serviceName method path body headers0 respObj s0)) =
        rrIndices s4"
    by (simp add: codecRequest_inner e s4 classify_state eventsSince_def split: sum.split)
  with tr e show ?thesis by auto
qed

lemma codecRequest_nil_as_empty:
  assumes "maps s a = Map.empty"
  shows "fst (codecRequest media dec label rt c serviceName method path body None respObj s) =
         fst (codecRequest media dec label rt c serviceName method path body (Some a) respObj s)
       \<and> eventsSince s
           (snd (codecRequest media dec label rt c serviceName method path body None respObj s)) =
         eventsSince s
           (snd (codecRequest media dec label rt c serviceName method path body (Some a) respObj s))
       \<and> rrIndices
           (snd (codecRequest media dec label rt c serviceName method path body None respObj s)) =
         rrIndices
           (snd (codecRequest media dec label rt c serviceName method path body (Some a) respObj s))"
proof -
  let ?w1 = "withDefaults media None s"
  let ?w2 = "withDefaults media (Some a) s"
  let ?i1 = "innerRequest media rt c serviceName method path body None s"
  let ?i2 = "innerRequest media rt c serviceName method path body (Some a) s"
  have f1: "fst ?w1 = Some (nextMap s)" and f2: "fst ?w2 = Some a"
    by (simp_all add: withDefaults_None withDefaults_Some)
  have rr: "rrIndices (snd ?w1) = rrIndices (snd ?w2)" by simp
  have mm: "maps (snd ?w1) (nextMap s) = maps (snd ?w2) a"
    using assms by (simp add: withDefaults_None withDefaults_Some)
  have tt: "trace (snd ?w1) = trace s" "trace (snd ?w2) = trace s" by simp_all
  from Request_same [OF rr mm, of rt c serviceName "method" path body]
  have same: "fst ?i1 = fst ?i2"
    "eventsSince (snd ?w1) (snd ?i1) = eventsSince (snd ?w2) (snd ?i2)"
    "rrIndices (snd ?i1) = rrIndices (snd ?i2)"
    by (simp_all add: innerRequest_def f1 f2)
  from same(2) have ev: "eventsSince s (snd ?i1) = eventsSince s (snd ?i2)"
    by (simp add: eventsSince_def tt)
  obtain evs1 where c1: "trace (snd ?i1) = trace s @ evs1"
    and e1: "eventsSince s
          (snd (codecRequest media dec label rt c serviceName method path body None respObj s)) =
        (case fst ?i1 of
           Inr (Inr resp) \<Rightarrow>
             evs1 @ map (\<lambda>(n, fin). EvBodyRead n fin) (readsFor dec resp respObj) @ [EvBodyClose]
         | _ \<Rightarrow> evs1)"
    and r1: "rrIndices
          (snd (codecRequest media dec label rt c serviceName method path body None respObj s)) =
        rrIndices (snd ?i1)"
    using codecRequest_events [of media rt c serviceName "method" path body None s dec label respObj]
    by blast
  obtain evs2 where c2: "trace (snd ?i2) = trace s @ evs2"
    and e2: "eventsSince s
          (snd (codecRequest media dec label rt c serviceName method path body (Some a) respObj s)) =
        (case fst ?i2 of
           Inr (Inr resp) \<Rightarrow>
             evs2 @ map (\<lambda>(n, fin). EvBodyRead n fin) (readsFor dec resp respObj) @ [EvBodyClose]
         | _ \<Rightarrow> evs2)"
    and r2: "rrIndices
          (snd (codecRequest media dec label rt c serviceName method path body (Some a) respObj s)) =
        rrIndices (snd ?i2)"
    using codecRequest_events [of media rt c serviceName "method" path body "Some a" s dec label respObj]
    by blast
  from ev c1 c2 have evs: "evs1 = evs2"
    by (simp add: eventsSince_def)
  have res: "fst (codecRequest media dec label rt c serviceName method path body None respObj s) =
         fst (codecRequest media dec label rt c serviceName method path body (Some a) respObj s)"
  proof -
    obtain q1 t1 where p1: "?i1 = (q1, t1)" by (cases ?i1)
    obtain q2 t2 where p2: "?i2 = (q2, t2)" by (cases ?i2)
    from same(1) p1 p2 have q: "q1 = q2" by simp
    show ?thesis
      by (simp add: codecRequest_inner p1 p2 q classify_result split: sum.split)
  qed
  have E: "eventsSince s
           (snd (codecRequest media dec label rt c serviceName method path body None respObj s)) =
         eventsSince s
           (snd (codecRequest media dec label rt c serviceName method path body (Some a) respObj s))"
    by (simp only: e1 e2 same(1) evs)
  have R: "rrIndices
           (snd (codecRequest media dec label rt c serviceName method path body None respObj s)) =
         rrIndices
           (snd (codecRequest media dec label rt c serviceName method path body (Some a) respObj s))"
    by (simp only: r1 r2 same(3))
  from res E R show ?thesis by blast
qed

lemma defaulted_empty:
  "defaulted media Map.empty = [HeaderAccept \<mapsto> [media], HeaderContentType \<mapsto> [media]]"
  by (rule ext) (simp add: defaulted_def firstValue_def)

lemma codecRequest_no_map_panic:
  "fst (codecRequest media dec label rt c serviceName method path body headers0 respObj s0)
     \<noteq> Inl NilMapAssignment"
proof -
  let ?i = "innerRequest media rt c serviceName method path body headers0 s0"
  have "fst ?i \<noteq> Inl NilMapAssignment"
    unfolding innerRequest_def by (rule Request_no_map_panic)
  then show ?thesis
    by (cases ?i) (auto simp: codecRequest_inner split: sum.split)
qed

lemma codecRequest_fresh_map:
  "maps (snd (codecRequest media dec label rt c serviceName method path body None respObj s)) =
     (maps s)(nextMap s := [HeaderAccept \<mapsto> [media], HeaderContentType \<mapsto> [media]])
   \<and> nextMap (snd (codecRequest media dec label rt c serviceName method path body None respObj s)) =
     nextMap s + 1"
  by (simp add: codecRequest_maps withDefaults_None defaulted_empty)

text \<open>
  C10. With a nil header map \<^verbatim>\<open>JsonRequest\<close> and \<^verbatim>\<open>XmlRequest\<close> do not panic on the
  assignment to a nil map: they create a fresh map, which gets the two defaults of the
  codec, and the call has the result, the events (so also the request sent) and the
  rotation table of the same call with an empty map that is not nil.
\<close>

theorem nil_headers_as_empty_map:
  assumes "maps s a = Map.empty"
  shows "fst (JsonRequest rt c serviceName method path body None respObj s) =
         fst (JsonRequest rt c serviceName method path body (Some a) respObj s)
       \<and> eventsSince s (snd (JsonRequest rt c serviceName method path body None respObj s)) =
         eventsSince s (snd (JsonRequest rt c serviceName method path body (Some a) respObj s))
       \<and> rrIndices (snd (JsonRequest rt c serviceName method path body None respObj s)) =
         rrIndices (snd (JsonRequest rt c serviceName method path body (Some a) respObj s))
       \<and> fst (JsonRequest rt c serviceName method path body None respObj s) \<noteq> Inl NilMapAssignment
       \<and> maps (snd (JsonRequest rt c serviceName method path body None respObj s)) =
           (maps s)(nextMap s := [HeaderAccept \<mapsto> [MediaJson], HeaderContentType \<mapsto> [MediaJson]])
       \<and> nextMap (snd (JsonRequest rt c serviceName method path body None respObj s)) = nextMap s + 1
       \<and> fst (XmlRequest rt c serviceName method path body None respObj s) =
         fst (XmlRequest rt c serviceName method path body (Some a) respObj s)
       \<and> eventsSince s (snd (XmlRequest rt c serviceName method path body None respObj s)) =
         eventsSince s (snd (XmlRequest rt c serviceName method path body (Some a) respObj s))
       \<and> rrIndices (snd (XmlRequest rt c serviceName method path body None respObj s)) =
         rrIndices (snd (XmlRequest rt c serviceName method path body (Some a) respObj s))
       \<and> fst (XmlRequest rt c serviceName method path body None respObj s) \<noteq> Inl NilMapAssignment
       \<and> maps (snd (XmlRequest rt c serviceName method path body None respObj s)) =
           (maps s)(nextMap s := [HeaderAccept \<mapsto> [MediaXml], HeaderContentType \<mapsto> [MediaXml]])
       \<and> nextMap (snd (XmlRequest rt c serviceName method path body None respObj s)) = nextMap s + 1"
proof -
  note j = codecRequest_nil_as_empty [OF assms, where media = MediaJson and dec = "jsonDecode rt"
      and label = "''JSON''" and rt = rt and c = c and serviceName = serviceName and path = path
      and body = body and respObj = respObj]
  note x = codecRequest_nil_as_empty [OF assms, where media = MediaXml and dec = "xmlDecode rt"
      and label = "''XML''" and rt = rt and c = c and serviceName = serviceName and path = path
      and body = body and respObj = respObj]
  show ?thesis
    by (simp only: JsonRequest_codec XmlRequest_codec j x codecRequest_no_map_panic
        codecRequest_fresh_map not_False_eq_True simp_thms)
qed

text \<open>
  A \<^verbatim>\<open>JsonRequest\<close> with nil headers succeeds on a response 204 as it does with the empty
  map at reference 0, and leaves the fresh map at reference 1.
\<close>

theorem nil_headers_as_empty_map_witness:
  "maps (sampleState Map.empty) 0 = Map.empty
   \<and> fst (JsonRequest sampleRuntime
        (sampleClient None \<lparr>StatusCode = 204, Body = \<lparr>content = [], failure = None\<rparr>\<rparr>)
        ''svc'' ''GET'' ''/x'' [] None None (sampleState Map.empty))
     = Inr (None, None)
   \<and> eventsSince (sampleState Map.empty)
        (snd (JsonRequest sampleRuntime
          (sampleClient None \<lparr>StatusCode = 204, Body = \<lparr>content = [], failure = None\<rparr>\<rparr>)
          ''svc'' ''GET'' ''/x'' [] None None (sampleState Map.empty)))
     = eventsSince (sampleState Map.empty)
        (snd (JsonRequest sampleRuntime
          (sampleClient None \<lparr>StatusCode = 204, Body = \<lparr>content = [], failure = None\<rparr>\<rparr>)
          ''svc'' ''GET'' ''/x'' [] (Some 0) None (sampleState Map.empty)))
   \<and> nextMap (snd (JsonRequest sampleRuntime
        (sampleClient None \<lparr>StatusCode = 204, Body = \<lparr>content = [], failure = None\<rparr>\<rparr>)
        ''svc'' ''GET'' ''/x'' [] None None (sampleState Map.empty))) = 2
   \<and> maps (snd (JsonRequest sampleRuntime
        (sampleClient None \<lparr>StatusCode = 204, Body = \<lparr>content = [], failure = None\<rparr>\<rparr>)
        ''svc'' ''GET'' ''/x'' [] None None (sampleState Map.empty))) 1 ''Accept''
     = Some [''application/json'']"
proof -
  let ?resp = "\<lparr>StatusCode = 204, Body = \<lparr>content = [], failure = None\<rparr>\<rparr>"
  let ?c = "sampleClient None ?resp"
  let ?s = "sampleState Map.empty"
  have m: "maps ?s 0 = Map.empty" by (simp add: sampleState_def)
  have n: "nextMap ?s = 1" by (simp add: sampleState_def)
  note w = nil_headers_as_empty_map [OF m, where rt = sampleRuntime and c = ?c
      and serviceName = "''svc''" and path = "''/x''" and body = "[]" and respObj = None]
  have "fst (codecRequest MediaJson sampleDecode ''JSON'' sampleRuntime ?c ''svc'' ''GET'' ''/x'' []
               (Some 0) None ?s) = Inr (None, None)"
    by (simp add: codecRequest_response [OF sample_innerRequest] classify_result)
  then have r: "fst (JsonRequest sampleRuntime ?c ''svc'' ''GET'' ''/x'' [] (Some 0) None ?s)
      = Inr (None, None)"
    by (simp add: JsonRequest_codec sampleRuntime_def)
  from w have 1: "fst (JsonRequest sampleRuntime ?c ''svc'' ''GET'' ''/x'' [] None None ?s) =
         fst (JsonRequest sampleRuntime ?c ''svc'' ''GET'' ''/x'' [] (Some 0) None ?s)"
    by blast
  from w have 2: "eventsSince ?s (snd (JsonRequest sampleRuntime ?c ''svc'' ''GET'' ''/x'' [] None None ?s)) =
         eventsSince ?s (snd (JsonRequest sampleRuntime ?c ''svc'' ''GET'' ''/x'' [] (Some 0) None ?s))"
    by blast
  from w have 3: "nextMap (snd (JsonRequest sampleRuntime ?c ''svc'' ''GET'' ''/x'' [] None None ?s))
      = nextMap ?s + 1"
    by blast
  from w have 4: "maps (snd (JsonRequest sampleRuntime ?c ''svc'' ''GET'' ''/x'' [] None None ?s)) =
           (maps ?s)(nextMap ?s := [HeaderAccept \<mapsto> [MediaJson], HeaderContentType \<mapsto> [MediaJson]])"
    by blast
  have 5: "maps (snd (JsonRequest sampleRuntime ?c ''svc'' ''GET'' ''/x'' [] None None ?s)) 1 ''Accept''
     = Some [''application/json'']"
    by (simp add: 4 n HeaderAccept_def HeaderContentType_def MediaJson_def)
  from m 1 r 2 3 n 5 show ?thesis by simp
qed

end
